theory Spec2Isabelle
  imports Main
begin

section \<open>Python values used by code_validation.py\<close>

text \<open>
  A Python \<open>str\<close> is modelled as a \<open>string\<close> whose characters are the code points
  below 256; \<open>length\<close> therefore counts code points, as \<open>len\<close> does. The character
  classes below are those of CPython for this range. Exceptions are values of type
  \<open>error\<close>; a function that can raise returns \<open>error + 'a\<close>.
\<close>

datatype error = IndexError | TypeError | SyntaxError | FileNotFoundError

abbreviation newline :: "char" where
  "newline \<equiv> CHR 0x0A"

text \<open>\<open>str.isspace\<close> on one character; also the class \<open>\s\<close> of \<open>re\<close> on \<open>str\<close> patterns.\<close>

definition isspace :: "char \<Rightarrow> bool" where
  "isspace c =
     (c \<in> set [CHR 0x09, CHR 0x0A, CHR 0x0B, CHR 0x0C, CHR 0x0D, CHR 0x1C, CHR 0x1D,
                CHR 0x1E, CHR 0x1F, CHR 0x20, CHR 0x85, CHR 0xA0])"

text \<open>\<open>s.strip()\<close>: whitespace removed at both ends.\<close>

definition strip :: "string \<Rightarrow> string" where
  "strip s = rev (dropWhile isspace (rev (dropWhile isspace s)))"

text \<open>\<open>s.startswith(p)\<close>.\<close>

definition startswith :: "string \<Rightarrow> string \<Rightarrow> bool" where
  "startswith s p = (take (length p) s = p)"

text \<open>\<open>p in s\<close> for strings: \<open>p\<close> occurs in \<open>s\<close> at some position.\<close>

fun str_contains :: "string \<Rightarrow> string \<Rightarrow> bool" where
  "str_contains [] p = (p = [])"
| "str_contains (c # cs) p = (startswith (c # cs) p \<or> str_contains cs p)"

text \<open>\<open>s.count('\n')\<close>.\<close>

definition count_newlines :: "string \<Rightarrow> nat" where
  "count_newlines s = length (filter (\<lambda>c. c = newline) s)"

text \<open>\<open>'\n'.join(xs)\<close>.\<close>

fun join_newline :: "string list \<Rightarrow> string" where
  "join_newline [] = []"
| "join_newline [x] = x"
| "join_newline (x # y # ys) = x @ newline # join_newline (y # ys)"

text \<open>
  \<open>xs[i]\<close> on a list: a negative index counts from the end, an index outside
  \<open>-len(xs) .. len(xs) - 1\<close> raises \<open>IndexError\<close>.
\<close>

definition py_index :: "'a list \<Rightarrow> int \<Rightarrow> error + 'a" where
  "py_index xs i =
     (if 0 \<le> i \<and> i < int (length xs) then Inr (xs ! nat i)
      else if i < 0 \<and> - int (length xs) \<le> i then Inr (xs ! nat (int (length xs) + i))
      else Inl IndexError)"

text \<open>
  \<open>xs[a:b]\<close> on a list: negative bounds count from the end, bounds are clamped to the
  list, and an empty range gives the empty list. A slice never raises.
\<close>

definition slice_bound :: "nat \<Rightarrow> int \<Rightarrow> nat" where
  "slice_bound n i = (if i < 0 then nat (max 0 (int n + i)) else min n (nat i))"

definition py_slice :: "'a list \<Rightarrow> int \<Rightarrow> int \<Rightarrow> 'a list" where
  "py_slice xs a b =
     (let lo = slice_bound (length xs) a; hi = slice_bound (length xs) b
      in take (hi - lo) (drop lo xs))"

text \<open>\<open>xs.pop(i)\<close> for an index in range: the list without its element \<open>i\<close>.\<close>

definition pop :: "'a list \<Rightarrow> nat \<Rightarrow> 'a list" where
  "pop xs i = take i xs @ drop (Suc i) xs"

section \<open>Thresholds\<close>

definition MAX_FILE_LINES :: "nat" where
  "MAX_FILE_LINES = 2000"

definition MAX_LINE_CHARACTERS :: "nat" where
  "MAX_LINE_CHARACTERS = 150"

definition MAX_VARIABLE_NAME_LENGTH :: "nat" where
  "MAX_VARIABLE_NAME_LENGTH = 25"

definition MAX_LINES_PER_METHOD :: "nat" where
  "MAX_LINES_PER_METHOD = 40"

section \<open>Line length\<close>

text \<open>
  \<open>re.sub(r'#.*', '', line)\<close>: every \<open>#\<close> is removed together with what follows it up
  to, and not including, the next newline (\<open>.\<close> matches every character but the
  newline).
\<close>

function re_sub_comment :: "string \<Rightarrow> string" where
  "re_sub_comment [] = []"
| "re_sub_comment (c # cs) =
     (if c = CHR ''#'' then re_sub_comment (dropWhile (\<lambda>d. d \<noteq> newline) cs)
      else c # re_sub_comment cs)"
  by pat_completeness auto
termination
  by (relation "measure length") (auto simp: le_imp_less_Suc length_dropWhile_le)

text \<open>
  \<open>check_implementation_line_length\<close>: the loop over \<open>enumerate(implementation_lines)\<close>,
  with the index \<open>i\<close> of the current line and the list \<open>line_numbers\<close> built so far.
\<close>

fun line_length_loop :: "nat \<Rightarrow> string list \<Rightarrow> nat list \<Rightarrow> nat list" where
  "line_length_loop i [] line_numbers = line_numbers"
| "line_length_loop i (line # rest) line_numbers =
     (if startswith (strip line) ''#'' then line_length_loop (i + 1) rest line_numbers
      else
        (let line' = re_sub_comment line
         in if length line' > MAX_LINE_CHARACTERS
            then line_length_loop (i + 1) rest (line_numbers @ [i + 1])
            else line_length_loop (i + 1) rest line_numbers))"

definition check_implementation_line_length :: "string list \<Rightarrow> nat list" where
  "check_implementation_line_length implementation_lines =
     line_length_loop 0 implementation_lines []"

section \<open>Variable name length\<close>

text \<open>The class \<open>\w\<close> of \<open>re\<close> on \<open>str\<close> patterns: \<open>str.isalnum\<close> or the underscore.\<close>

definition is_word_char :: "char \<Rightarrow> bool" where
  "is_word_char c =
     (let n = (of_char c :: nat)
      in (48 \<le> n \<and> n \<le> 57) \<or> (65 \<le> n \<and> n \<le> 90) \<or> n = 95 \<or> (97 \<le> n \<and> n \<le> 122)
         \<or> n \<in> set [0xAA, 0xB2, 0xB3, 0xB5, 0xB9, 0xBA, 0xBC, 0xBD, 0xBE]
         \<or> (0xC0 \<le> n \<and> n \<le> 0xD6) \<or> (0xD8 \<le> n \<and> n \<le> 0xF6) \<or> (0xF8 \<le> n \<and> n \<le> 0xFF))"

text \<open>
  \<open>str.upper\<close>, as the code points of the result: three characters of the range have an
  upper case outside it or of two characters.
\<close>

definition upper_char :: "char \<Rightarrow> nat list" where
  "upper_char c =
     (let n = (of_char c :: nat)
      in if (97 \<le> n \<and> n \<le> 122) \<or> (0xE0 \<le> n \<and> n \<le> 0xF6) \<or> (0xF8 \<le> n \<and> n \<le> 0xFE)
         then [n - 32]
         else if n = 0xB5 then [0x39C]
         else if n = 0xDF then [0x53, 0x53]
         else if n = 0xFF then [0x178]
         else [n])"

definition str_upper :: "string \<Rightarrow> nat list" where
  "str_upper s = concat (map upper_char s)"

definition code_points :: "string \<Rightarrow> nat list" where
  "code_points s = map of_char s"

text \<open>
  \<open>re.search(r'\b(\w+)\s*=', line)\<close>, as the text of group 1 of the leftmost match.
  \<open>try_spaces j s\<close> is \<open>\s*=\<close> with the star holding \<open>j\<close> characters and giving them
  back one at a time; \<open>try_word k s\<close> is \<open>(\w+)\<close> holding \<open>k\<close> characters and giving back
  down to one; \<open>search_assignment prev s\<close> tries every start position from left to
  right, \<open>prev\<close> being the character before it, for the word boundary \<open>\b\<close>.
\<close>

fun try_spaces :: "nat \<Rightarrow> string \<Rightarrow> bool" where
  "try_spaces 0 s = startswith s ''=''"
| "try_spaces (Suc j) s = (startswith (drop (Suc j) s) ''='' \<or> try_spaces j s)"

definition match_spaces_equals :: "string \<Rightarrow> bool" where
  "match_spaces_equals s = try_spaces (length (takeWhile isspace s)) s"

fun try_word :: "nat \<Rightarrow> string \<Rightarrow> string option" where
  "try_word 0 s = None"
| "try_word (Suc k) s =
     (if match_spaces_equals (drop (Suc k) s) then Some (take (Suc k) s) else try_word k s)"

definition match_assignment :: "string \<Rightarrow> string option" where
  "match_assignment s = try_word (length (takeWhile is_word_char s)) s"

definition word_boundary :: "char option \<Rightarrow> char option \<Rightarrow> bool" where
  "word_boundary left right =
     ((case left of None \<Rightarrow> False | Some c \<Rightarrow> is_word_char c)
        \<noteq> (case right of None \<Rightarrow> False | Some c \<Rightarrow> is_word_char c))"

fun search_assignment :: "char option \<Rightarrow> string \<Rightarrow> string option" where
  "search_assignment prev [] = None"
| "search_assignment prev (c # cs) =
     (if word_boundary prev (Some c)
      then (case match_assignment (c # cs) of
              Some word \<Rightarrow> Some word
            | None \<Rightarrow> search_assignment (Some c) cs)
      else search_assignment (Some c) cs)"

definition re_search_assignment :: "string \<Rightarrow> string option" where
  "re_search_assignment line = search_assignment None line"

text \<open>
  \<open>check_implementation_variable_length\<close>: the inner loop \<open>for word in words\<close> over the
  groups of the match, and the outer loop over \<open>enumerate(implementation_lines)\<close>.
\<close>

fun words_loop :: "nat \<Rightarrow> string list \<Rightarrow> nat list \<Rightarrow> nat list" where
  "words_loop i [] line_numbers = line_numbers"
| "words_loop i (word # rest) line_numbers =
     (if str_upper word = code_points word then words_loop i rest line_numbers
      else if length word > MAX_VARIABLE_NAME_LENGTH
           then words_loop i rest (line_numbers @ [i + 1])
           else words_loop i rest line_numbers)"

fun variable_length_loop :: "nat \<Rightarrow> string list \<Rightarrow> nat list \<Rightarrow> nat list" where
  "variable_length_loop i [] line_numbers = line_numbers"
| "variable_length_loop i (line # rest) line_numbers =
     (case re_search_assignment line of
        None \<Rightarrow> variable_length_loop (i + 1) rest line_numbers
      | Some word \<Rightarrow> variable_length_loop (i + 1) rest (words_loop i [word] line_numbers))"

definition check_implementation_variable_length :: "string list \<Rightarrow> nat list" where
  "check_implementation_variable_length implementation_lines =
     variable_length_loop 0 implementation_lines []"

section \<open>Wildcard imports\<close>

text \<open>
  \<open>re.search(r'from\s(.*)\simport\s', line)\<close>, as the text of group 1 of the leftmost
  match. \<open>match_space_import_space s\<close> is \<open>\simport\s\<close> at the start of \<open>s\<close>;
  \<open>greedy_module k s\<close> is \<open>(.*)\<close> holding \<open>k\<close> characters and giving them back one at a
  time; it starts with all the characters before the next newline.
\<close>

definition match_space_import_space :: "string \<Rightarrow> bool" where
  "match_space_import_space s =
     (case s of
        [] \<Rightarrow> False
      | c # r \<Rightarrow>
          isspace c \<and> startswith r ''import''
          \<and> (case drop 6 r of [] \<Rightarrow> False | d # _ \<Rightarrow> isspace d))"

fun greedy_module :: "nat \<Rightarrow> string \<Rightarrow> string option" where
  "greedy_module 0 s = (if match_space_import_space s then Some [] else None)"
| "greedy_module (Suc k) s =
     (if match_space_import_space (drop (Suc k) s) then Some (take (Suc k) s)
      else greedy_module k s)"

definition match_from_import :: "string \<Rightarrow> string option" where
  "match_from_import s =
     (if startswith s ''from''
      then (case drop 4 s of
              [] \<Rightarrow> None
            | c # r \<Rightarrow>
                if isspace c
                then greedy_module (length (takeWhile (\<lambda>d. d \<noteq> newline) r)) r
                else None)
      else None)"

fun re_search_from_import :: "string \<Rightarrow> string option" where
  "re_search_from_import [] = None"
| "re_search_from_import (c # cs) =
     (case match_from_import (c # cs) of
        Some from_module \<Rightarrow> Some from_module
      | None \<Rightarrow> re_search_from_import cs)"

text \<open>\<open>check_invalid_imports\<close>: the loop over the lines, with the list built so far.\<close>

fun invalid_imports_loop :: "string list \<Rightarrow> string list \<Rightarrow> string list" where
  "invalid_imports_loop [] invalid_imports = invalid_imports"
| "invalid_imports_loop (line # rest) invalid_imports =
     (if startswith (strip line) ''import'' then invalid_imports_loop rest invalid_imports
      else
        (case re_search_from_import line of
           None \<Rightarrow> invalid_imports_loop rest invalid_imports
         | Some from_module \<Rightarrow>
             if str_contains line ''import *''
             then invalid_imports_loop rest (invalid_imports @ [from_module])
             else invalid_imports_loop rest invalid_imports))"

definition check_invalid_imports :: "string list \<Rightarrow> string list" where
  "check_invalid_imports implementation = invalid_imports_loop implementation []"

section \<open>Files and syntax trees\<close>

text \<open>
  \<open>code.splitlines()\<close>: a line ends at \<open>\n\<close>, \<open>\r\<close>, \<open>\r\n\<close>, \<open>\v\<close>, \<open>\f\<close>, \<open>\x1c\<close>,
  \<open>\x1d\<close>, \<open>\x1e\<close> or \<open>\x85\<close>; the line ends are dropped and no empty last line is added.
  \<open>cur\<close> is the line read so far.
\<close>

definition is_line_boundary :: "char \<Rightarrow> bool" where
  "is_line_boundary c =
     (c \<in> set [CHR 0x0A, CHR 0x0B, CHR 0x0C, CHR 0x0D, CHR 0x1C, CHR 0x1D, CHR 0x1E, CHR 0x85])"

fun splitlines_from :: "string \<Rightarrow> string \<Rightarrow> string list" where
  "splitlines_from cur [] = (if cur = [] then [] else [cur])"
| "splitlines_from cur [c] = (if is_line_boundary c then [cur] else [cur @ [c]])"
| "splitlines_from cur (c # d # cs) =
     (if c = CHR 0x0D \<and> d = CHR 0x0A then cur # splitlines_from [] cs
      else if is_line_boundary c then cur # splitlines_from [] (d # cs)
      else splitlines_from (cur @ [c]) (d # cs))"

definition splitlines :: "string \<Rightarrow> string list" where
  "splitlines code = splitlines_from [] code"

text \<open>
  \<open>file.readlines()\<close> on a file opened in text mode: every line keeps its \<open>\n\<close>; the
  last line has none when the text does not end with one.
\<close>

fun readlines_from :: "string \<Rightarrow> string \<Rightarrow> string list" where
  "readlines_from cur [] = (if cur = [] then [] else [cur])"
| "readlines_from cur (c # cs) =
     (if c = newline then (cur @ [c]) # readlines_from [] cs
      else readlines_from (cur @ [c]) cs)"

definition readlines :: "string \<Rightarrow> string list" where
  "readlines text = readlines_from [] text"

text \<open>
  The \<open>ast\<close> module is not part of the repository. A node of \<open>ast.walk(tree)\<close> is
  modelled by what the checks read of it: whether it is a \<open>ClassDef\<close>, a \<open>FunctionDef\<close>
  or any other node, its \<open>name\<close>, its \<open>lineno\<close>, its \<open>end_lineno\<close> (\<open>None\<close> when the node
  has no such attribute) and the result of \<open>ast.get_docstring(node)\<close>. Of a statement
  of \<open>tree.body\<close> the file-header check reads whether it is an \<open>Expr\<close> whose value is a
  \<open>Str\<close>.
\<close>

datatype node_kind = ClassDef | FunctionDef | OtherNode

record node =
  kind :: "node_kind"
  name :: "string"
  lineno :: "int"
  end_lineno :: "int option"
  docstring :: "string option"

datatype expr_value = Str | OtherValue

datatype stmt = Expr "expr_value" | OtherStmt

record ast_module =
  body :: "stmt list"
  walk :: "node list"

text \<open>
  A file, as the checks see it through its path: \<open>content\<close> is the text that
  \<open>file.read()\<close> returns, \<open>parsed\<close> is what \<open>ast.parse\<close> returns for this text, or the
  exception it raises.
\<close>

record source_file =
  file_path :: "string"
  content :: "string"
  parsed :: "error + ast_module"

section \<open>File header\<close>

definition has_file_docstring :: "source_file \<Rightarrow> error + bool" where
  "has_file_docstring file =
     (case parsed file of
        Inl e \<Rightarrow> Inl e
      | Inr tree \<Rightarrow>
          (case py_index (body tree) 0 of
             Inl e \<Rightarrow> Inl e
           | Inr first \<Rightarrow>
               (case first of
                  Expr v \<Rightarrow> (case v of Str \<Rightarrow> Inr True | OtherValue \<Rightarrow> Inr False)
                | OtherStmt \<Rightarrow> Inr False)))"

text \<open>
  \<open>check_for_file_header\<close>: the right operand of \<open>and\<close> is evaluated only when the first
  line is not a comment.
\<close>

definition check_for_file_header :: "source_file \<Rightarrow> string list \<Rightarrow> error + bool" where
  "check_for_file_header file implementation =
     (case py_index implementation 0 of
        Inl e \<Rightarrow> Inl e
      | Inr first \<Rightarrow>
          if \<not> startswith (strip first) ''#''
          then (case has_file_docstring file of
                  Inl e \<Rightarrow> Inl e
                | Inr has_docstring \<Rightarrow> if \<not> has_docstring then Inr False else Inr True)
          else Inr True)"

definition check_file_too_large :: "string list \<Rightarrow> bool" where
  "check_file_too_large implementation_lines =
     (length implementation_lines \<le> MAX_FILE_LINES)"

section \<open>Headers of classes and functions\<close>

text \<open>
  \<open>check_module_using_comment_header\<close>. The loop keeps \<open>has_comment_header\<close>,
  \<open>current_line_index\<close> and \<open>current_line\<close>; it ends at a line that is not a comment, or
  with the \<open>IndexError\<close> of \<open>implementation[current_line_index]\<close>.
\<close>

function comment_header_loop ::
  "string list \<Rightarrow> bool \<Rightarrow> int \<Rightarrow> string \<Rightarrow> error + bool" where
  "comment_header_loop implementation has_comment_header current_line_index current_line =
     (if startswith (strip current_line) ''#''
      then (case py_index implementation (current_line_index - 1) of
              Inl e \<Rightarrow> Inl e
            | Inr next_line \<Rightarrow>
                comment_header_loop implementation True (current_line_index - 1) next_line)
      else Inr has_comment_header)"
  by pat_completeness auto
termination
  by (relation "measure (\<lambda>(implementation, h, i, l). nat (i + int (length implementation)))")
     (auto simp: py_index_def Let_def split: if_splits)

definition check_module_using_comment_header :: "string list \<Rightarrow> int \<Rightarrow> error + bool" where
  "check_module_using_comment_header implementation start_line =
     (case py_index implementation (start_line - 1) of
        Inl e \<Rightarrow> Inl e
      | Inr current_line \<Rightarrow>
          comment_header_loop implementation False (start_line - 1) current_line)"

text \<open>\<open>bool(ast.get_docstring(node))\<close>: a docstring that is not empty.\<close>

definition has_docstring_header :: "node \<Rightarrow> bool" where
  "has_docstring_header n = (case docstring n of None \<Rightarrow> False | Some d \<Rightarrow> d \<noteq> [])"

text \<open>\<open>check_class_headers\<close>: the loop over \<open>ast.walk(tree)\<close>, with the list built so far.\<close>

fun class_headers_loop :: "string \<Rightarrow> node list \<Rightarrow> string list \<Rightarrow> error + string list" where
  "class_headers_loop code [] no_header_classes = Inr no_header_classes"
| "class_headers_loop code (n # rest) no_header_classes =
     (if kind n = ClassDef
      then (let start_line = lineno n - 1
            in case check_module_using_comment_header (splitlines code) start_line of
                 Inl e \<Rightarrow> Inl e
               | Inr has_comment_header \<Rightarrow>
                   if \<not> has_docstring_header n \<and> \<not> has_comment_header
                   then class_headers_loop code rest (no_header_classes @ [name n])
                   else class_headers_loop code rest no_header_classes)
      else class_headers_loop code rest no_header_classes)"

definition check_class_headers :: "source_file \<Rightarrow> error + string list" where
  "check_class_headers file =
     (case parsed file of
        Inl e \<Rightarrow> Inl e
      | Inr tree \<Rightarrow> class_headers_loop (content file) (walk tree) [])"

text \<open>
  \<open>check_functions_headers\<close>: a function whose definition line contains \<open>def __\<close> is
  skipped by \<open>continue\<close>.
\<close>

fun functions_headers_loop ::
  "string \<Rightarrow> node list \<Rightarrow> string list \<Rightarrow> error + string list" where
  "functions_headers_loop code [] no_header_functions = Inr no_header_functions"
| "functions_headers_loop code (n # rest) no_header_functions =
     (if kind n = FunctionDef
      then (let start_line = lineno n - 1
            in case py_index (splitlines code) start_line of
                 Inl e \<Rightarrow> Inl e
               | Inr def_line \<Rightarrow>
                   if str_contains def_line ''def __''
                   then functions_headers_loop code rest no_header_functions
                   else
                     (case check_module_using_comment_header (splitlines code) start_line of
                        Inl e \<Rightarrow> Inl e
                      | Inr has_comment_header \<Rightarrow>
                          if \<not> has_docstring_header n \<and> \<not> has_comment_header
                          then functions_headers_loop code rest (no_header_functions @ [name n])
                          else functions_headers_loop code rest no_header_functions))
      else functions_headers_loop code rest no_header_functions)"

definition check_functions_headers :: "source_file \<Rightarrow> error + string list" where
  "check_functions_headers file =
     (case parsed file of
        Inl e \<Rightarrow> Inl e
      | Inr tree \<Rightarrow> functions_headers_loop (content file) (walk tree) [])"

section \<open>Function length\<close>

text \<open>
  \<open>re.sub(r'""".*?"""', '', source_code, flags=re.DOTALL)\<close>. At a \<open>"""\<close> the lazy
  \<open>.*?\<close> stops at the nearest later \<open>"""\<close>, the text from the first through the second
  is removed and the scan goes on after it; where there is no later \<open>"""\<close> the
  character is kept and the scan goes on at the next one. \<open>find_closing s\<close> is the text
  after the nearest \<open>"""\<close> of \<open>s\<close>.
\<close>

definition triple_quote :: "string" where
  "triple_quote = [CHR 0x22, CHR 0x22, CHR 0x22]"

fun find_closing :: "string \<Rightarrow> string option" where
  "find_closing [] = None"
| "find_closing (c # cs) =
     (if startswith (c # cs) triple_quote then Some (drop 3 (c # cs)) else find_closing cs)"

lemma find_closing_shorter: "find_closing s = Some r \<Longrightarrow> length r \<le> length s"
  by (induction s) (auto split: if_splits)

function remove_docstring :: "string \<Rightarrow> string" where
  "remove_docstring [] = []"
| "remove_docstring (c # cs) =
     (if startswith (c # cs) triple_quote
      then (case find_closing (drop 3 (c # cs)) of
              Some rest \<Rightarrow> remove_docstring rest
            | None \<Rightarrow> c # remove_docstring cs)
      else c # remove_docstring cs)"
  by pat_completeness auto
termination
  by (relation "measure length")
     (auto dest!: find_closing_shorter simp: startswith_def triple_quote_def)

text \<open>
  The loop \<open>for i, line in zip(range(len(function_code) - 1, -1, -1),
  reversed(function_code))\<close>, which pops from the list it walks. \<open>Suc i\<close> lines are
  still to visit, the next one at index \<open>i\<close>: the reversed iterator yields
  \<open>function_code[i]\<close> of the list as it is now, and ends when \<open>i\<close> is no index of it.
\<close>

fun pop_comment_lines :: "nat \<Rightarrow> string list \<Rightarrow> string list" where
  "pop_comment_lines 0 function_code = function_code"
| "pop_comment_lines (Suc i) function_code =
     (if i < length function_code
      then (if startswith (strip (function_code ! i)) ''#''
            then pop_comment_lines i (pop function_code i)
            else pop_comment_lines i function_code)
      else function_code)"

text \<open>
  The body of the loop of \<open>check_functions_less_than_40_lines\<close> for one function:
  \<open>function_lines\<close> is the slice \<open>code.splitlines()[start_line:end_line]\<close>,
  \<open>function_code_of\<close> the text whose newlines are counted.
\<close>

definition function_lines :: "string \<Rightarrow> node \<Rightarrow> string list" where
  "function_lines code n =
     (let start_line = lineno n - 1;
          end_line = (case end_lineno n of Some e \<Rightarrow> e | None \<Rightarrow> start_line)
      in py_slice (splitlines code) start_line end_line)"

definition function_code_of :: "string \<Rightarrow> node \<Rightarrow> string" where
  "function_code_of code n =
     (let function_code = function_lines code n;
          function_code = pop_comment_lines (length function_code) function_code
      in remove_docstring (join_newline function_code))"

fun long_functions_loop :: "string \<Rightarrow> node list \<Rightarrow> string list \<Rightarrow> string list" where
  "long_functions_loop code [] long_functions = long_functions"
| "long_functions_loop code (n # rest) long_functions =
     (if kind n = FunctionDef
      then (if count_newlines (function_code_of code n) > 40
            then long_functions_loop code rest (long_functions @ [name n])
            else long_functions_loop code rest long_functions)
      else long_functions_loop code rest long_functions)"

definition check_functions_less_than_40_lines :: "source_file \<Rightarrow> error + string list" where
  "check_functions_less_than_40_lines file =
     (case parsed file of
        Inl e \<Rightarrow> Inl e
      | Inr tree \<Rightarrow> Inr (long_functions_loop (content file) (walk tree) []))"

section \<open>The report\<close>

text \<open>
  The two global dictionaries, as records of their keys. An entry of
  \<open>specific_file_information\<close> is \<open>None\<close> until the file's run stores a list in it.
\<close>

record template_variables =
  SCRIPT_NAME :: "string"
  FILE_HEADER_EXISTS :: "bool"
  EXCEPTABLE_FILE_SIZE :: "bool"
  VALID_IMPORTS :: "bool"
  VALID_LINE_LENGTHS :: "bool"
  CLASSES_HAVE_HEADERS :: "bool"
  FUNCTIONS_HAVE_HEADERS :: "bool"
  VALID_FUNCTION_LENGTHS :: "bool"
  VALID_VARIABLE_LENGTHS :: "bool"
  INVALID_IMPORT_CHECKBOXES :: "string"
  INVALID_LINE_LENGTH_CHECKBOXES :: "string"
  CLASSES_WITHOUT_HEADERS_CHECKBOXES :: "string"
  FUNCTIONS_WITHOUT_HEADERS_CHECKBOXES :: "string"
  INVALID_FUNCTION_LENGTH_CHECKBOXES :: "string"
  INVALID_VARIABLE_LENGTH_CHECKBOXES :: "string"

record specific_file_information =
  INVALID_IMPORTS :: "string list option"
  INVALID_LENGTHY_LINES :: "nat list option"
  HEADLESS_CLASSES :: "string list option"
  HEADLESS_FUNCTIONS :: "string list option"
  INVALID_LENGTHY_FUNCTIONS :: "string list option"
  INVALID_LENGTHY_VARIABLES :: "nat list option"

text \<open>
  What a run reads and writes besides its input files: the two dictionaries, the
  directory of the script, the template file next to it (\<open>None\<close> when it is missing),
  whether the output directory exists, and the files written, by path.
\<close>

record state =
  variables :: "template_variables"
  information :: "specific_file_information"
  directory :: "string"
  template_file :: "string option"
  output_directory_exists :: "bool"
  output_files :: "string \<rightharpoonup> string"

definition initial_template_variables :: "template_variables" where
  "initial_template_variables =
     \<lparr> SCRIPT_NAME = [],
       FILE_HEADER_EXISTS = True,
       EXCEPTABLE_FILE_SIZE = True,
       VALID_IMPORTS = True,
       VALID_LINE_LENGTHS = True,
       CLASSES_HAVE_HEADERS = True,
       FUNCTIONS_HAVE_HEADERS = True,
       VALID_FUNCTION_LENGTHS = True,
       VALID_VARIABLE_LENGTHS = True,
       INVALID_IMPORT_CHECKBOXES = [],
       INVALID_LINE_LENGTH_CHECKBOXES = [],
       CLASSES_WITHOUT_HEADERS_CHECKBOXES = [],
       FUNCTIONS_WITHOUT_HEADERS_CHECKBOXES = [],
       INVALID_FUNCTION_LENGTH_CHECKBOXES = [],
       INVALID_VARIABLE_LENGTH_CHECKBOXES = [] \<rparr>"

definition initial_file_information :: "specific_file_information" where
  "initial_file_information =
     \<lparr> INVALID_IMPORTS = None,
       INVALID_LENGTHY_LINES = None,
       HEADLESS_CLASSES = None,
       HEADLESS_FUNCTIONS = None,
       INVALID_LENGTHY_FUNCTIONS = None,
       INVALID_LENGTHY_VARIABLES = None \<rparr>"

definition set_data_for_parsing :: "state \<Rightarrow> state" where
  "set_data_for_parsing st =
     st\<lparr> variables := initial_template_variables, information := initial_file_information \<rparr>"

text \<open>\<open>str(n)\<close> and \<open>"{}".format(n)\<close> for an integer that is not negative.\<close>

function str_nat :: "nat \<Rightarrow> string" where
  "str_nat n =
     (if n < 10 then [char_of (48 + n)] else str_nat (n div 10) @ [char_of (48 + n mod 10)])"
  by pat_completeness auto
termination
  by (relation "measure id") auto

text \<open>\<open>CHECKBOX_OUTLINE.format(mark, item)\<close>.\<close>

definition CHECKBOX_OUTLINE :: "string \<Rightarrow> string \<Rightarrow> string" where
  "CHECKBOX_OUTLINE mark item = '' - ['' @ mark @ ''] '' @ item @ [newline]"

text \<open>The six loops of \<open>generate_validation_output\<close>, in the order of the source.\<close>

fun lengthy_lines_loop :: "nat list \<Rightarrow> template_variables \<Rightarrow> template_variables" where
  "lengthy_lines_loop [] tv = tv"
| "lengthy_lines_loop (line_number # rest) tv =
     (let line_number_string = ''Line Number - '' @ str_nat line_number
      in lengthy_lines_loop rest
           (tv\<lparr> VALID_LINE_LENGTHS := False,
                INVALID_LINE_LENGTH_CHECKBOXES :=
                  INVALID_LINE_LENGTH_CHECKBOXES tv @ CHECKBOX_OUTLINE '' '' line_number_string \<rparr>))"

fun lengthy_variables_loop :: "nat list \<Rightarrow> template_variables \<Rightarrow> template_variables" where
  "lengthy_variables_loop [] tv = tv"
| "lengthy_variables_loop (line_number # rest) tv =
     (let line_number_string = ''Line Number - '' @ str_nat line_number
      in lengthy_variables_loop rest
           (tv\<lparr> VALID_VARIABLE_LENGTHS := False,
                INVALID_VARIABLE_LENGTH_CHECKBOXES :=
                  INVALID_VARIABLE_LENGTH_CHECKBOXES tv
                    @ CHECKBOX_OUTLINE '' '' line_number_string \<rparr>))"

fun lengthy_functions_loop :: "string list \<Rightarrow> template_variables \<Rightarrow> template_variables" where
  "lengthy_functions_loop [] tv = tv"
| "lengthy_functions_loop (function_name # rest) tv =
     lengthy_functions_loop rest
       (tv\<lparr> VALID_FUNCTION_LENGTHS := False,
            INVALID_FUNCTION_LENGTH_CHECKBOXES :=
              INVALID_FUNCTION_LENGTH_CHECKBOXES tv @ CHECKBOX_OUTLINE '' '' function_name \<rparr>)"

fun headless_functions_loop :: "string list \<Rightarrow> template_variables \<Rightarrow> template_variables" where
  "headless_functions_loop [] tv = tv"
| "headless_functions_loop (function_name # rest) tv =
     headless_functions_loop rest
       (tv\<lparr> FUNCTIONS_HAVE_HEADERS := False,
            FUNCTIONS_WITHOUT_HEADERS_CHECKBOXES :=
              FUNCTIONS_WITHOUT_HEADERS_CHECKBOXES tv @ CHECKBOX_OUTLINE '' '' function_name \<rparr>)"

fun headless_classes_loop :: "string list \<Rightarrow> template_variables \<Rightarrow> template_variables" where
  "headless_classes_loop [] tv = tv"
| "headless_classes_loop (class_name # rest) tv =
     headless_classes_loop rest
       (tv\<lparr> CLASSES_HAVE_HEADERS := False,
            CLASSES_WITHOUT_HEADERS_CHECKBOXES :=
              CLASSES_WITHOUT_HEADERS_CHECKBOXES tv @ CHECKBOX_OUTLINE '' '' class_name \<rparr>)"

fun invalid_imports_boxes_loop ::
  "string list \<Rightarrow> template_variables \<Rightarrow> template_variables" where
  "invalid_imports_boxes_loop [] tv = tv"
| "invalid_imports_boxes_loop (import_package # rest) tv =
     invalid_imports_boxes_loop rest
       (tv\<lparr> VALID_IMPORTS := False,
            INVALID_IMPORT_CHECKBOXES :=
              INVALID_IMPORT_CHECKBOXES tv @ CHECKBOX_OUTLINE '' '' import_package \<rparr>)"

text \<open>
  \<open>generate_validation_output\<close>: a \<open>for\<close> over an entry that is still \<open>None\<close> raises
  \<open>TypeError\<close>.
\<close>

definition generate_validation_output ::
  "specific_file_information \<Rightarrow> template_variables \<Rightarrow> error + template_variables" where
  "generate_validation_output info tv =
     (case INVALID_LENGTHY_LINES info of
        None \<Rightarrow> Inl TypeError
      | Some lengthy_lines \<Rightarrow>
     (case INVALID_LENGTHY_VARIABLES info of
        None \<Rightarrow> Inl TypeError
      | Some lengthy_variables \<Rightarrow>
     (case INVALID_LENGTHY_FUNCTIONS info of
        None \<Rightarrow> Inl TypeError
      | Some lengthy_functions \<Rightarrow>
     (case HEADLESS_FUNCTIONS info of
        None \<Rightarrow> Inl TypeError
      | Some headless_functions \<Rightarrow>
     (case HEADLESS_CLASSES info of
        None \<Rightarrow> Inl TypeError
      | Some headless_classes \<Rightarrow>
     (case INVALID_IMPORTS info of
        None \<Rightarrow> Inl TypeError
      | Some invalid_imports \<Rightarrow>
          Inr (invalid_imports_boxes_loop invalid_imports
                (headless_classes_loop headless_classes
                  (headless_functions_loop headless_functions
                    (lengthy_functions_loop lengthy_functions
                      (lengthy_variables_loop lengthy_variables
                        (lengthy_lines_loop lengthy_lines tv))))))))))))"

definition convert_bool_to_checkbox_value :: "bool \<Rightarrow> string" where
  "convert_bool_to_checkbox_value v = (if v then ''X'' else '' '')"

text \<open>
  \<open>s.replace(old, new)\<close>: the occurrences of \<open>old\<close> are replaced from left to right,
  none overlapping another; an empty \<open>old\<close> puts \<open>new\<close> around every character.
\<close>

function str_replace :: "string \<Rightarrow> string \<Rightarrow> string \<Rightarrow> string" where
  "str_replace s old new =
     (if old = [] then new @ concat (map (\<lambda>c. c # new) s)
      else (case s of
              [] \<Rightarrow> []
            | c # cs \<Rightarrow>
                if startswith s old then new @ str_replace (drop (length old) s) old new
                else c # str_replace cs old new))"
  by pat_completeness auto
termination
  by (relation "measure (\<lambda>(s, old, new). length s)") auto

text \<open>
  \<open>template_variables.items()\<close>, in the order the keys were inserted; a value is a
  \<open>bool\<close> or a \<open>str\<close>.
\<close>

datatype template_value = BoolValue "bool" | StrValue "string"

definition items :: "template_variables \<Rightarrow> (string \<times> template_value) list" where
  "items tv =
     [(''SCRIPT_NAME'', StrValue (SCRIPT_NAME tv)),
      (''FILE_HEADER_EXISTS'', BoolValue (FILE_HEADER_EXISTS tv)),
      (''EXCEPTABLE_FILE_SIZE'', BoolValue (EXCEPTABLE_FILE_SIZE tv)),
      (''VALID_IMPORTS'', BoolValue (VALID_IMPORTS tv)),
      (''VALID_LINE_LENGTHS'', BoolValue (VALID_LINE_LENGTHS tv)),
      (''CLASSES_HAVE_HEADERS'', BoolValue (CLASSES_HAVE_HEADERS tv)),
      (''FUNCTIONS_HAVE_HEADERS'', BoolValue (FUNCTIONS_HAVE_HEADERS tv)),
      (''VALID_FUNCTION_LENGTHS'', BoolValue (VALID_FUNCTION_LENGTHS tv)),
      (''VALID_VARIABLE_LENGTHS'', BoolValue (VALID_VARIABLE_LENGTHS tv)),
      (''INVALID_IMPORT_CHECKBOXES'', StrValue (INVALID_IMPORT_CHECKBOXES tv)),
      (''INVALID_LINE_LENGTH_CHECKBOXES'', StrValue (INVALID_LINE_LENGTH_CHECKBOXES tv)),
      (''CLASSES_WITHOUT_HEADERS_CHECKBOXES'', StrValue (CLASSES_WITHOUT_HEADERS_CHECKBOXES tv)),
      (''FUNCTIONS_WITHOUT_HEADERS_CHECKBOXES'',
         StrValue (FUNCTIONS_WITHOUT_HEADERS_CHECKBOXES tv)),
      (''INVALID_FUNCTION_LENGTH_CHECKBOXES'', StrValue (INVALID_FUNCTION_LENGTH_CHECKBOXES tv)),
      (''INVALID_VARIABLE_LENGTH_CHECKBOXES'', StrValue (INVALID_VARIABLE_LENGTH_CHECKBOXES tv))]"

text \<open>
  The text that \<open>write_validation_output\<close> puts in place of \<open>{{variable}}\<close>: the two
  \<open>if\<close> statements at the head of its loop.
\<close>

definition replacement_text :: "template_value \<Rightarrow> string" where
  "replacement_text replacement =
     (let replacement =
            (case replacement of
               BoolValue b \<Rightarrow> convert_bool_to_checkbox_value b
             | StrValue t \<Rightarrow> t)
      in if replacement = [] then ''None :)'' else replacement)"

fun substitute_loop :: "(string \<times> template_value) list \<Rightarrow> string \<Rightarrow> string" where
  "substitute_loop [] template_lines = template_lines"
| "substitute_loop ((variable, replacement) # rest) template_lines =
     substitute_loop rest
       (str_replace template_lines (''{{'' @ variable @ ''}}'') (replacement_text replacement))"

definition write_validation_output :: "state \<Rightarrow> error + state" where
  "write_validation_output st =
     (case template_file st of
        None \<Rightarrow> Inl FileNotFoundError
      | Some template \<Rightarrow>
          (let template_lines = substitute_loop (items (variables st)) template;
               template_lines =
                 str_replace template_lines ''{{MAX_FILE_LINES}}'' (str_nat MAX_FILE_LINES);
               template_lines =
                 str_replace template_lines ''{{MAX_LINE_CHARACTERS}}''
                   (str_nat MAX_LINE_CHARACTERS);
               template_lines =
                 str_replace template_lines ''{{MAX_VARIABLE_NAME_LENGTH}}''
                   (str_nat MAX_VARIABLE_NAME_LENGTH);
               template_lines =
                 str_replace template_lines ''{{MAX_LINES_PER_METHOD}}''
                   (str_nat MAX_LINES_PER_METHOD);
               path_to_output_storage = directory st @ ''/code_validation_output/'';
               path_to_output_md_file =
                 path_to_output_storage @ ''/'' @ SCRIPT_NAME (variables st)
                   @ ''_validation_output.md''
           in Inr (st\<lparr> output_directory_exists := True,
                        output_files :=
                          (output_files st)(path_to_output_md_file \<mapsto> template_lines) \<rparr>)))"

section \<open>The run over one file\<close>

text \<open>\<open>os.path.basename\<close> on a path with \<open>/\<close> as its separator.\<close>

definition basename :: "string \<Rightarrow> string" where
  "basename p = rev (takeWhile (\<lambda>c. c \<noteq> CHR ''/'') (rev p))"

text \<open>
  \<open>parse_python_file\<close>. An exception of a check ends the run: nothing is written for
  the file.
\<close>

definition parse_python_file :: "state \<Rightarrow> source_file \<Rightarrow> error + state" where
  "parse_python_file st0 file =
     (let st = set_data_for_parsing st0;
          lines = readlines (content file)
      in if length lines = 0 then Inr st
         else
     (case check_for_file_header file lines of
        Inl e \<Rightarrow> Inl e
      | Inr file_header_exists \<Rightarrow>
          (let tv = (variables st)
                 \<lparr> SCRIPT_NAME := basename (file_path file),
                   FILE_HEADER_EXISTS := file_header_exists,
                   EXCEPTABLE_FILE_SIZE := check_file_too_large lines \<rparr>;
               info = (information st)
                 \<lparr> INVALID_LENGTHY_LINES := Some (check_implementation_line_length lines),
                   INVALID_LENGTHY_VARIABLES :=
                     Some (check_implementation_variable_length lines) \<rparr>
           in
     (case check_functions_less_than_40_lines file of
        Inl e \<Rightarrow> Inl e
      | Inr lengthy_functions \<Rightarrow>
     (case check_functions_headers file of
        Inl e \<Rightarrow> Inl e
      | Inr headless_functions \<Rightarrow>
     (case check_class_headers file of
        Inl e \<Rightarrow> Inl e
      | Inr headless_classes \<Rightarrow>
          (let info = info
                 \<lparr> INVALID_LENGTHY_FUNCTIONS := Some lengthy_functions,
                   HEADLESS_FUNCTIONS := Some headless_functions,
                   HEADLESS_CLASSES := Some headless_classes,
                   INVALID_IMPORTS := Some (check_invalid_imports lines) \<rparr>
           in case generate_validation_output info tv of
                Inl e \<Rightarrow> Inl e
              | Inr tv' \<Rightarrow>
                  write_validation_output
                    (st\<lparr> variables := tv', information := info \<rparr>))))))))"

text \<open>\<open>parse_directory\<close>, on the files that \<open>get_all_python_files\<close> found.\<close>

fun parse_directory :: "state \<Rightarrow> source_file list \<Rightarrow> error + state" where
  "parse_directory st [] = Inr st"
| "parse_directory st (python_file # rest) =
     (case parse_python_file st python_file of
        Inl e \<Rightarrow> Inl e
      | Inr st' \<Rightarrow> parse_directory st' rest)"

section \<open>The function-length rule as the specification words it\<close>


section \<open>Example files\<close>

text \<open>A node that is neither a class nor a function definition.\<close>

definition other_node :: "node" where
  "other_node =
     \<lparr> kind = OtherNode, name = [], lineno = 0, end_lineno = None, docstring = None \<rparr>"

text \<open>
  A function defined on the first line of its file, without a docstring, and a comment
  on the last line of the file.
\<close>

definition example_first_line :: "source_file" where
  "example_first_line =
     \<lparr> file_path = ''first_line.py'',
       content = ''def f():'' @ [newline] @ ''    pass'' @ [newline] @ ''# done'',
       parsed = Inr \<lparr> body = [OtherStmt],
                      walk = [other_node,
                              \<lparr> kind = FunctionDef, name = ''f'', lineno = 1,
                                end_lineno = Some 2, docstring = None \<rparr>,
                              other_node, other_node] \<rparr> \<rparr>"














declare comment_header_loop.simps [simp del]
declare str_nat.simps [simp del]
declare str_replace.simps [simp del]

section \<open>Properties of the line checks\<close>

subsection \<open>Stripping and comment removal\<close>

lemma strip_hd:
  assumes "dropWhile isspace s = c # r"
  shows "\<exists>v. strip s = c # v"
proof -
  have "\<not> isspace c"
    using assms by (metis hd_dropWhile list.sel(1) list.distinct(1))
  then have "dropWhile isspace (rev r @ [c]) = dropWhile isspace (rev r) @ [c]"
    by (simp add: dropWhile_append3)
  then show ?thesis by (simp add: strip_def assms)
qed

lemma strip_Nil:
  assumes "dropWhile isspace s = []"
  shows "strip s = []"
  unfolding strip_def assms by simp

text \<open>
  Whether the stripped line starts with a given character depends on the leading
  whitespace only.
\<close>

lemma strip_startswith:
  "startswith (strip s) [c] = startswith (dropWhile isspace s) [c]"
proof (cases "dropWhile isspace s")
  case Nil
  show ?thesis unfolding Nil strip_Nil [OF Nil] by simp
next
  case (Cons d r)
  then obtain v where "strip s = d # v" using strip_hd by blast
  with Cons show ?thesis by (simp add: startswith_def)
qed

lemma re_sub_comment_no_hash: "CHR ''#'' \<notin> set s \<Longrightarrow> re_sub_comment s = s"
  by (induction s) auto

lemma re_sub_comment_suffix:
  assumes "CHR ''#'' \<notin> set pre" and "newline \<notin> set suffix"
  shows "re_sub_comment (pre @ CHR ''#'' # suffix) = pre"
    and "re_sub_comment (pre @ CHR ''#'' # suffix @ [newline]) = pre @ [newline]"
proof -
  have d1: "dropWhile (\<lambda>d. d \<noteq> newline) suffix = []"
    using assms(2) by (induction suffix) auto
  have d2: "dropWhile (\<lambda>d. d \<noteq> newline) (suffix @ [newline]) = [newline]"
    using assms(2) by (induction suffix) auto
  show "re_sub_comment (pre @ CHR ''#'' # suffix) = pre"
    using assms(1) by (induction pre) (auto simp: d1)
  show "re_sub_comment (pre @ CHR ''#'' # suffix @ [newline]) = pre @ [newline]"
    using assms(1) by (induction pre) (auto simp: d2)
qed

subsection \<open>The line-length check\<close>

text \<open>The loop collects, in order, the numbers of the lines that pass both tests.\<close>

lemma line_length_loop_eq:
  "line_length_loop i ls acc =
     acc @ map (\<lambda>(k, l). Suc k)
             (filter (\<lambda>(k, l). \<not> startswith (strip l) ''#''
                               \<and> length (re_sub_comment l) > MAX_LINE_CHARACTERS)
                (enumerate i ls))"
  by (induction ls arbitrary: i acc) (simp_all add: Let_def)

lemma check_line_length_member:
  "n \<in> set (check_implementation_line_length ls) \<longleftrightarrow>
     (\<exists>k < length ls. n = Suc k \<and> \<not> startswith (strip (ls ! k)) ''#''
        \<and> length (re_sub_comment (ls ! k)) > MAX_LINE_CHARACTERS)"
  by (auto simp: check_implementation_line_length_def line_length_loop_eq in_set_enumerate_eq)

text \<open>
  Claim C7. A line that is a comment as a whole, that is, whose text after its leading
  whitespace starts with \<open>#\<close>, is never in the list of long lines, whatever its length:
  the number \<open>k + 1\<close> of line \<open>k\<close> is not in the result.
\<close>

theorem comment_lines_never_flagged:
  assumes "k < length ls"
    and "startswith (dropWhile isspace (ls ! k)) ''#''"
  shows "Suc k \<notin> set (check_implementation_line_length ls)"
  using assms by (simp add: check_line_length_member strip_startswith)

theorem comment_lines_never_flagged_witness:
  "startswith (dropWhile isspace (''   #'' @ replicate 200 (CHR ''x''))) ''#''
   \<and> length (''   #'' @ replicate 200 (CHR ''x'')) = 204
   \<and> Suc 0 \<notin> set (check_implementation_line_length [''   #'' @ replicate 200 (CHR ''x'')])"
  using comment_lines_never_flagged [of 0 "[''   #'' @ replicate 200 (CHR ''x'')]"]
  by (simp add: startswith_def isspace_def)

text \<open>
  The rule of the check on the strings it is given. For a string \<open>k\<close> of the list that
  is not a comment as a whole, the number \<open>k + 1\<close> is in the result exactly when the
  string is longer than 150 characters once every \<open>#\<close> and what follows it up to the
  next newline is removed; the length is that of the string, its newline included when
  it has one.
\<close>

lemma long_lines_flagged:
  assumes "k < length ls"
    and "\<not> startswith (strip (ls ! k)) ''#''"
  shows "((Suc k \<in> set (check_implementation_line_length ls))
            = (150 < length (re_sub_comment (ls ! k))))
       \<and> (ls ! k = pre @ CHR ''#'' # suffix \<and> CHR ''#'' \<notin> set pre \<and> newline \<notin> set suffix
            \<longrightarrow> (Suc k \<in> set (check_implementation_line_length ls)) = (150 < length pre))
       \<and> (CHR ''#'' \<notin> set (ls ! k) \<and> length (ls ! k) = 151
            \<longrightarrow> Suc k \<in> set (check_implementation_line_length ls))
       \<and> (CHR ''#'' \<notin> set (ls ! k) \<and> length (ls ! k) = 150
            \<longrightarrow> Suc k \<notin> set (check_implementation_line_length ls))"
proof -
  have iff: "(Suc k \<in> set (check_implementation_line_length ls))
           = (150 < length (re_sub_comment (ls ! k)))"
    using assms by (auto simp: check_line_length_member MAX_LINE_CHARACTERS_def)
  have "ls ! k = pre @ CHR ''#'' # suffix \<and> CHR ''#'' \<notin> set pre \<and> newline \<notin> set suffix
           \<longrightarrow> (Suc k \<in> set (check_implementation_line_length ls)) = (150 < length pre)"
    using iff by (auto simp: re_sub_comment_suffix(1))
  moreover have "CHR ''#'' \<notin> set (ls ! k) \<and> length (ls ! k) = 151
           \<longrightarrow> Suc k \<in> set (check_implementation_line_length ls)"
    using iff by (simp add: re_sub_comment_no_hash)
  moreover have "CHR ''#'' \<notin> set (ls ! k) \<and> length (ls ! k) = 150
           \<longrightarrow> Suc k \<notin> set (check_implementation_line_length ls)"
    using iff by (simp add: re_sub_comment_no_hash)
  ultimately show ?thesis using iff by blast
qed

lemma long_lines_flagged_witness:
  "Suc 0 \<in> set (check_implementation_line_length [replicate 151 (CHR ''a'')])
   \<and> Suc 0 \<notin> set (check_implementation_line_length [replicate 150 (CHR ''a'')])
   \<and> Suc 0 \<notin> set (check_implementation_line_length
                      [replicate 150 (CHR ''a'') @ CHR ''#'' # replicate 50 (CHR ''b'')])"
  using long_lines_flagged [of 0 "[replicate 151 (CHR ''a'')]" "[]" "[]"]
    long_lines_flagged [of 0 "[replicate 150 (CHR ''a'')]" "[]" "[]"]
    long_lines_flagged [of 0 "[replicate 150 (CHR ''a'') @ CHR ''#'' # replicate 50 (CHR ''b'')]"
       "replicate 150 (CHR ''a'')" "replicate 50 (CHR ''b'')"]
  by (simp add: startswith_def strip_def isspace_def re_sub_comment_no_hash
      re_sub_comment_suffix)

text \<open>
  Claim C3 says that a line of exactly 150 characters that are not part of a comment is
  not flagged. \<open>parse_python_file\<close> hands the check the lines of \<open>readlines\<close>, which keep
  their newline, and the check counts it: in a file whose first line is 150 letters,
  the first line is a string of 151 characters and its number is recorded, with or
  without a comment after the letters.
\<close>

theorem line_of_150_characters_is_flagged:
  "readlines (replicate 150 (CHR ''a'') @ [newline] @ ''b = 1'' @ [newline])
     = [replicate 150 (CHR ''a'') @ [newline], ''b = 1'' @ [newline]]
   \<and> check_implementation_line_length
        (readlines (replicate 150 (CHR ''a'') @ [newline] @ ''b = 1'' @ [newline])) = [1]
   \<and> check_implementation_line_length
        (readlines (replicate 150 (CHR ''a'') @ ''#c'' @ [newline] @ ''b = 1'' @ [newline])) = [1]"
  by code_simp

subsection \<open>The wildcard-import check\<close>

lemma startswith_iff: "startswith s p \<longleftrightarrow> (\<exists>post. s = p @ post)"
proof
  assume "startswith s p"
  then have "s = p @ drop (length p) s"
    by (metis append_take_drop_id startswith_def)
  then show "\<exists>post. s = p @ post" ..
next
  assume "\<exists>post. s = p @ post"
  then show "startswith s p" by (auto simp: startswith_def)
qed

lemma str_contains_iff: "str_contains s p \<longleftrightarrow> (\<exists>pre post. s = pre @ p @ post)"
proof (induction s)
  case Nil
  then show ?case by auto
next
  case (Cons c cs)
  show ?case
  proof
    assume "str_contains (c # cs) p"
    then consider "startswith (c # cs) p" | "str_contains cs p" by auto
    then show "\<exists>pre post. c # cs = pre @ p @ post"
    proof cases
      case 1
      then obtain post where "c # cs = p @ post" by (auto simp: startswith_iff)
      then have "c # cs = [] @ p @ post" by simp
      then show ?thesis by blast
    next
      case 2
      then obtain pre post where "cs = pre @ p @ post" using Cons.IH by blast
      then have "c # cs = (c # pre) @ p @ post" by simp
      then show ?thesis by blast
    qed
  next
    assume "\<exists>pre post. c # cs = pre @ p @ post"
    then obtain pre post where e: "c # cs = pre @ p @ post" by blast
    show "str_contains (c # cs) p"
    proof (cases pre)
      case Nil
      with e have "\<exists>post. c # cs = p @ post" by auto
      then show ?thesis by (metis startswith_iff str_contains.simps(2))
    next
      case (Cons d pre')
      with e have "cs = pre' @ p @ post" by simp
      then show ?thesis using Cons.IH by auto
    qed
  qed
qed

lemma match_space_import_space_iff:
  "match_space_import_space s \<longleftrightarrow>
     (\<exists>c2 c3 post. s = c2 # ''import'' @ c3 # post \<and> isspace c2 \<and> isspace c3)"
proof
  assume a: "match_space_import_space s"
  then obtain c r where s: "s = c # r" by (cases s) (auto simp: match_space_import_space_def)
  with a have c: "isspace c" and st: "startswith r ''import''"
    and d: "case drop 6 r of [] \<Rightarrow> False | d # _ \<Rightarrow> isspace d"
    by (auto simp: match_space_import_space_def)
  from d obtain d' rest where dr: "drop 6 r = d' # rest" and sd: "isspace d'"
    by (cases "drop 6 r") auto
  from st have "take 6 r = ''import''" by (simp add: startswith_def eval_nat_numeral)
  then have "r = ''import'' @ d' # rest"
    using dr by (metis append_take_drop_id)
  with s c sd show "\<exists>c2 c3 post. s = c2 # ''import'' @ c3 # post \<and> isspace c2 \<and> isspace c3"
    by blast
next
  assume "\<exists>c2 c3 post. s = c2 # ''import'' @ c3 # post \<and> isspace c2 \<and> isspace c3"
  then show "match_space_import_space s"
    by (auto simp: match_space_import_space_def startswith_def)
qed

lemma greedy_module_Some:
  "greedy_module k s = Some m \<Longrightarrow>
     \<exists>j \<le> k. m = take j s \<and> match_space_import_space (drop j s)"
proof (induction k)
  case 0
  then show ?case by (auto split: if_splits)
next
  case (Suc k)
  show ?case
  proof (cases "match_space_import_space (drop (Suc k) s)")
    case True
    with Suc.prems show ?thesis by auto
  next
    case False
    with Suc.prems have "greedy_module k s = Some m" by simp
    from Suc.IH [OF this] show ?thesis using le_Suc_eq by blast
  qed
qed

lemma greedy_module_None:
  "greedy_module k s = None \<longleftrightarrow> (\<forall>j \<le> k. \<not> match_space_import_space (drop j s))"
  by (induction k) (auto simp: le_Suc_eq)

lemma take_takeWhile_no_newline:
  assumes "j \<le> length (takeWhile (\<lambda>d. d \<noteq> newline) r)"
  shows "newline \<notin> set (take j r)"
proof -
  have "take j (takeWhile (\<lambda>d. d \<noteq> newline) r @ dropWhile (\<lambda>d. d \<noteq> newline) r)
          = take j (takeWhile (\<lambda>d. d \<noteq> newline) r)
            @ take (j - length (takeWhile (\<lambda>d. d \<noteq> newline) r))
                (dropWhile (\<lambda>d. d \<noteq> newline) r)"
    by (rule take_append)
  then have "take j r = take j (takeWhile (\<lambda>d. d \<noteq> newline) r)"
    using assms by simp
  then show ?thesis
    by (auto dest: in_set_takeD set_takeWhileD)
qed

lemma match_from_import_Some:
  assumes "match_from_import s = Some m"
  shows "\<exists>c1 c2 c3 post. s = ''from'' @ c1 # m @ c2 # ''import'' @ c3 # post
           \<and> isspace c1 \<and> isspace c2 \<and> isspace c3 \<and> newline \<notin> set m"
proof -
  from assms have st: "startswith s ''from''"
    by (auto simp: match_from_import_def split: if_splits)
  then have t: "take 4 s = ''from''" by (simp add: startswith_def eval_nat_numeral)
  from assms st obtain c r where d: "drop 4 s = c # r" and c: "isspace c"
    and g: "greedy_module (length (takeWhile (\<lambda>d. d \<noteq> newline) r)) r = Some m"
    by (auto simp: match_from_import_def split: if_splits list.splits)
  from greedy_module_Some [OF g] obtain j
    where j: "j \<le> length (takeWhile (\<lambda>d. d \<noteq> newline) r)" and m: "m = take j r"
      and ms: "match_space_import_space (drop j r)"
    by blast
  from ms obtain c2 c3 post
    where dr: "drop j r = c2 # ''import'' @ c3 # post" and s2: "isspace c2" and s3: "isspace c3"
    unfolding match_space_import_space_iff by blast
  have "s = take 4 s @ drop 4 s" by simp
  also have "\<dots> = ''from'' @ c # r" using t d by simp
  also have "r = take j r @ drop j r" by simp
  finally have "s = ''from'' @ c # m @ c2 # ''import'' @ c3 # post"
    using m dr by simp
  moreover have "newline \<notin> set m"
    using take_takeWhile_no_newline [OF j] m by simp
  ultimately show ?thesis using c s2 s3 by blast
qed

lemma match_from_import_complete:
  assumes "s = ''from'' @ c1 # m @ c2 # ''import'' @ c3 # post"
    and "isspace c1" and "isspace c2" and "isspace c3" and "newline \<notin> set m"
  shows "match_from_import s \<noteq> None"
proof -
  let ?r = "m @ c2 # ''import'' @ c3 # post"
  have "takeWhile (\<lambda>d. d \<noteq> newline) ?r
          = m @ takeWhile (\<lambda>d. d \<noteq> newline) (c2 # ''import'' @ c3 # post)"
    using assms(5) by (intro takeWhile_append2) auto
  then have le: "length m \<le> length (takeWhile (\<lambda>d. d \<noteq> newline) ?r)"
    by simp
  have "match_space_import_space (drop (length m) ?r)"
    unfolding match_space_import_space_iff using assms(3,4) by auto
  with le have "greedy_module (length (takeWhile (\<lambda>d. d \<noteq> newline) ?r)) ?r \<noteq> None"
    unfolding greedy_module_None by blast
  then show ?thesis
    using assms(1,2) by (simp add: match_from_import_def startswith_def)
qed

lemma re_search_from_import_Some:
  "re_search_from_import line = Some m \<Longrightarrow>
     \<exists>pre rest. line = pre @ rest \<and> match_from_import rest = Some m"
proof (induction line)
  case Nil
  then show ?case by simp
next
  case (Cons c cs)
  show ?case
  proof (cases "match_from_import (c # cs)")
    case None
    with Cons.prems have "re_search_from_import cs = Some m" by simp
    from Cons.IH [OF this] obtain pre rest
      where "cs = pre @ rest" and "match_from_import rest = Some m" by blast
    then have "c # cs = (c # pre) @ rest \<and> match_from_import rest = Some m" by simp
    then show ?thesis by blast
  next
    case (Some g)
    with Cons.prems have "c # cs = [] @ (c # cs) \<and> match_from_import (c # cs) = Some m"
      by simp
    then show ?thesis by blast
  qed
qed

lemma re_search_from_import_complete:
  "match_from_import rest \<noteq> None \<Longrightarrow> re_search_from_import (pre @ rest) \<noteq> None"
proof (induction pre)
  case Nil
  then show ?case
    by (cases rest) (auto simp: match_from_import_def startswith_def split: option.splits)
next
  case (Cons c pre)
  then show ?case by (auto split: option.splits)
qed

lemma re_search_from_import_iff:
  "re_search_from_import line \<noteq> None \<longleftrightarrow>
     (\<exists>pre c1 m c2 c3 post. line = pre @ ''from'' @ c1 # m @ c2 # ''import'' @ c3 # post
        \<and> isspace c1 \<and> isspace c2 \<and> isspace c3 \<and> newline \<notin> set m)"
proof
  assume "re_search_from_import line \<noteq> None"
  then obtain m where "re_search_from_import line = Some m" by auto
  from re_search_from_import_Some [OF this] obtain pre rest
    where l: "line = pre @ rest" and r: "match_from_import rest = Some m" by blast
  from match_from_import_Some [OF r] l
  show "\<exists>pre c1 m c2 c3 post. line = pre @ ''from'' @ c1 # m @ c2 # ''import'' @ c3 # post
        \<and> isspace c1 \<and> isspace c2 \<and> isspace c3 \<and> newline \<notin> set m"
    by blast
next
  assume "\<exists>pre c1 m c2 c3 post. line = pre @ ''from'' @ c1 # m @ c2 # ''import'' @ c3 # post
        \<and> isspace c1 \<and> isspace c2 \<and> isspace c3 \<and> newline \<notin> set m"
  then obtain pre c1 m c2 c3 post
    where l: "line = pre @ (''from'' @ c1 # m @ c2 # ''import'' @ c3 # post)"
      and s: "isspace c1" "isspace c2" "isspace c3" "newline \<notin> set m"
    by auto
  have "match_from_import (''from'' @ c1 # m @ c2 # ''import'' @ c3 # post) \<noteq> None"
    by (rule match_from_import_complete [OF refl s])
  from re_search_from_import_complete [OF this] l
  show "re_search_from_import line \<noteq> None" by simp
qed

lemma invalid_imports_loop_eq:
  "invalid_imports_loop ls acc =
     acc @ map (\<lambda>line. the (re_search_from_import line))
             (filter (\<lambda>line. \<not> startswith (strip line) ''import''
                              \<and> re_search_from_import line \<noteq> None
                              \<and> str_contains line ''import *'') ls)"
  by (induction ls arbitrary: acc) (auto split: option.splits)


text \<open>
  Which lines the check records, and what. The result lists, in the order of the lines,
  the text of group 1 for every line that does not start with \<open>import\<close> after stripping,
  that the pattern matches and that contains \<open>import *\<close>. The pattern matches a line
  exactly when the line contains \<open>from\<close>, a whitespace character, a text without
  newline, a whitespace character, \<open>import\<close> and a whitespace character; group 1 is
  such a text between a \<open>from\<close> and an \<open>import\<close>. A list of lines that all start with
  \<open>import\<close> gives no violation. The line \<open>from os import *\<close> gives \<open>os\<close>, the line
  \<open>import os, sys, re\<close> gives nothing.
\<close>

lemma wildcard_imports_flagged:
  "check_invalid_imports ls
     = map (\<lambda>line. the (re_search_from_import line))
         (filter (\<lambda>line. \<not> startswith (strip line) ''import''
                          \<and> re_search_from_import line \<noteq> None
                          \<and> str_contains line ''import *'') ls)
   \<and> ((re_search_from_import line \<noteq> None)
        = (\<exists>pre c1 m c2 c3 post.
             line = pre @ ''from'' @ c1 # m @ c2 # ''import'' @ c3 # post
             \<and> isspace c1 \<and> isspace c2 \<and> isspace c3 \<and> newline \<notin> set m))
   \<and> (re_search_from_import line = Some from_module
        \<longrightarrow> (\<exists>pre c1 c2 c3 post.
               line = pre @ ''from'' @ c1 # from_module @ c2 # ''import'' @ c3 # post
               \<and> isspace c1 \<and> isspace c2 \<and> isspace c3 \<and> newline \<notin> set from_module))
   \<and> (str_contains line ''import *'' = (\<exists>pre post. line = pre @ ''import *'' @ post))
   \<and> ((\<forall>l \<in> set ls. startswith (strip l) ''import'') \<longrightarrow> check_invalid_imports ls = [])
   \<and> check_invalid_imports [''from os import *''] = [''os'']
   \<and> check_invalid_imports [''import os, sys, re''] = []"
proof -
  have a: "check_invalid_imports ls
     = map (\<lambda>line. the (re_search_from_import line))
         (filter (\<lambda>line. \<not> startswith (strip line) ''import''
                          \<and> re_search_from_import line \<noteq> None
                          \<and> str_contains line ''import *'') ls)"
    by (simp add: check_invalid_imports_def invalid_imports_loop_eq)
  have b: "re_search_from_import line = Some from_module
        \<longrightarrow> (\<exists>pre c1 c2 c3 post.
               line = pre @ ''from'' @ c1 # from_module @ c2 # ''import'' @ c3 # post
               \<and> isspace c1 \<and> isspace c2 \<and> isspace c3 \<and> newline \<notin> set from_module)"
  proof
    assume "re_search_from_import line = Some from_module"
    from re_search_from_import_Some [OF this] obtain pre rest
      where l: "line = pre @ rest" and r: "match_from_import rest = Some from_module" by blast
    from match_from_import_Some [OF r] l
    show "\<exists>pre c1 c2 c3 post.
               line = pre @ ''from'' @ c1 # from_module @ c2 # ''import'' @ c3 # post
               \<and> isspace c1 \<and> isspace c2 \<and> isspace c3 \<and> newline \<notin> set from_module"
      by blast
  qed
  have c: "(\<forall>l \<in> set ls. startswith (strip l) ''import'') \<longrightarrow> check_invalid_imports ls = []"
    by (auto simp: a filter_empty_conv)
  have d: "check_invalid_imports [''from os import *''] = [''os'']"
    by code_simp
  have e: "check_invalid_imports [''import os, sys, re''] = []"
    by code_simp
  from a b c d e re_search_from_import_iff [of line] str_contains_iff [of line "''import *''"]
  show ?thesis by blast
qed

lemma wildcard_imports_flagged_witness:
  "check_invalid_imports
     [''import os, sys, re'' @ [newline], ''from os import *'' @ [newline],
      ''from sys import path'' @ [newline], ''    from re import *  # all'' @ [newline]]
   = [''os'', ''re'']
   \<and> re_search_from_import (''from os import *'' @ [newline]) = Some ''os''
   \<and> (\<exists>pre c1 c2 c3 post.
         ''from os import *'' @ [newline] = pre @ ''from'' @ c1 # ''os'' @ c2 # ''import'' @ c3 # post
         \<and> isspace c1 \<and> isspace c2 \<and> isspace c3 \<and> newline \<notin> set ''os'')
   \<and> startswith (strip (''import os'' @ [newline])) ''import''
   \<and> startswith (strip (''  import sys, re'' @ [newline])) ''import''
   \<and> check_invalid_imports [''import os'' @ [newline], ''  import sys, re'' @ [newline]] = []"
proof -
  have e: "map (\<lambda>line. the (re_search_from_import line))
         (filter (\<lambda>line. \<not> startswith (strip line) ''import''
                          \<and> re_search_from_import line \<noteq> None
                          \<and> str_contains line ''import *'')
       [''import os, sys, re'' @ [newline], ''from os import *'' @ [newline],
        ''from sys import path'' @ [newline], ''    from re import *  # all'' @ [newline]])
      = [''os'', ''re'']"
    by code_simp
  have r: "re_search_from_import (''from os import *'' @ [newline]) = Some ''os''"
    by code_simp
  have i: "\<forall>l \<in> set [''import os'' @ [newline], ''  import sys, re'' @ [newline]].
         startswith (strip l) ''import''"
    by code_simp
  from wildcard_imports_flagged
         [of "[''import os, sys, re'' @ [newline], ''from os import *'' @ [newline],
               ''from sys import path'' @ [newline], ''    from re import *  # all'' @ [newline]]"
             "''from os import *'' @ [newline]" "''os''"] e r
  have 1: "check_invalid_imports
     [''import os, sys, re'' @ [newline], ''from os import *'' @ [newline],
      ''from sys import path'' @ [newline], ''    from re import *  # all'' @ [newline]]
   = [''os'', ''re'']"
    and 2: "\<exists>pre c1 c2 c3 post.
         ''from os import *'' @ [newline] = pre @ ''from'' @ c1 # ''os'' @ c2 # ''import'' @ c3 # post
         \<and> isspace c1 \<and> isspace c2 \<and> isspace c3 \<and> newline \<notin> set ''os''"
    by simp_all
  from wildcard_imports_flagged
         [of "[''import os'' @ [newline], ''  import sys, re'' @ [newline]]" "[]" "[]"] i
  have 3: "check_invalid_imports [''import os'' @ [newline], ''  import sys, re'' @ [newline]] = []"
    by blast
  from i have 4: "startswith (strip (''import os'' @ [newline])) ''import''"
    and 5: "startswith (strip (''  import sys, re'' @ [newline])) ''import''"
    by simp_all
  from 1 2 3 4 5 r show ?thesis by blast
qed


text \<open>
  Claim C6 says that the check records the name of the source module. The group
  \<open>(.*)\<close> is greedy and takes one whitespace character only on each side: for a
  wildcard import of \<open>os\<close> followed by a comment in which \<open>import\<close> stands between
  blanks, the recorded text runs up to the last \<open>import\<close> of the line, and for two blanks
  after \<open>from\<close> it starts with a blank. In both lines the module is \<open>os\<close>.
\<close>

theorem greedy_group_runs_to_last_import:
  "check_invalid_imports (readlines (''from os import *  # we import all'' @ [newline]))
     = [''os import *  # we'']
   \<and> check_invalid_imports (readlines (''from  os import *'' @ [newline])) = ['' os'']"
  by code_simp

subsection \<open>The variable-name check\<close>

lemma word_char_not_space: "is_word_char c \<Longrightarrow> \<not> isspace c"
  unfolding isspace_def by (auto simp: is_word_char_def Let_def)

lemma word_char_not_equals: "is_word_char c \<Longrightarrow> c \<noteq> CHR ''=''"
  by (auto simp: is_word_char_def Let_def)

lemma equals_not_space: "\<not> isspace (CHR ''='')"
  by (simp add: isspace_def)

lemma try_spaces_iff:
  "try_spaces j s \<longleftrightarrow> (\<exists>i \<le> j. startswith (drop i s) ''='')"
  by (induction j) (auto simp: le_Suc_eq)

lemma match_spaces_equals_iff:
  "match_spaces_equals s \<longleftrightarrow>
     (\<exists>sp post. s = sp @ CHR ''='' # post \<and> (\<forall>c \<in> set sp. isspace c))"
proof
  assume "match_spaces_equals s"
  then obtain i where i: "i \<le> length (takeWhile isspace s)"
    and st: "startswith (drop i s) ''=''"
    by (auto simp: match_spaces_equals_def try_spaces_iff)
  from st obtain post where d: "drop i s = CHR ''='' # post"
    by (auto simp: startswith_iff)
  have "take i (takeWhile isspace s @ dropWhile isspace s)
          = take i (takeWhile isspace s) @ take (i - length (takeWhile isspace s))
              (dropWhile isspace s)"
    by (rule take_append)
  then have "take i s = take i (takeWhile isspace s)" using i by simp
  then have sp: "\<forall>c \<in> set (take i s). isspace c"
    by (auto dest: in_set_takeD set_takeWhileD)
  have "s = take i s @ drop i s" by simp
  with d have "s = take i s @ CHR ''='' # post" by simp
  with sp show "\<exists>sp post. s = sp @ CHR ''='' # post \<and> (\<forall>c \<in> set sp. isspace c)"
    by blast
next
  assume "\<exists>sp post. s = sp @ CHR ''='' # post \<and> (\<forall>c \<in> set sp. isspace c)"
  then obtain sp post where s: "s = sp @ CHR ''='' # post" and sp: "\<forall>c \<in> set sp. isspace c"
    by blast
  have "takeWhile isspace s = sp @ takeWhile isspace (CHR ''='' # post)"
    unfolding s using sp by (intro takeWhile_append2) auto
  then have "length sp \<le> length (takeWhile isspace s)" by simp
  moreover have "startswith (drop (length sp) s) ''=''"
    by (simp add: s startswith_def)
  ultimately show "match_spaces_equals s"
    unfolding match_spaces_equals_def try_spaces_iff by blast
qed

lemma try_word_Some:
  "try_word k s = Some w \<Longrightarrow>
     \<exists>i. 0 < i \<and> i \<le> k \<and> w = take i s \<and> match_spaces_equals (drop i s)"
proof (induction k)
  case 0
  then show ?case by simp
next
  case (Suc k)
  show ?case
  proof (cases "match_spaces_equals (drop (Suc k) s)")
    case True
    with Suc.prems show ?thesis by auto
  next
    case False
    with Suc.prems have "try_word k s = Some w" by simp
    from Suc.IH [OF this] show ?thesis using le_Suc_eq by blast
  qed
qed

lemma try_word_None:
  "try_word k s = None \<longleftrightarrow> (\<forall>i. 0 < i \<and> i \<le> k \<longrightarrow> \<not> match_spaces_equals (drop i s))"
proof (induction k)
  case 0
  then show ?case by simp
next
  case (Suc k)
  show ?case
  proof (cases "match_spaces_equals (drop (Suc k) s)")
    case True
    then show ?thesis by auto
  next
    case False
    then show ?thesis using Suc.IH by (auto simp: le_Suc_eq)
  qed
qed

lemma match_spaces_equals_not_word:
  assumes "match_spaces_equals (c # r)"
  shows "\<not> is_word_char c"
proof -
  from assms obtain sp post where s: "c # r = sp @ CHR ''='' # post"
    and sp: "\<forall>c \<in> set sp. isspace c"
    unfolding match_spaces_equals_iff by blast
  show ?thesis
  proof (cases sp)
    case Nil
    with s show ?thesis using word_char_not_equals by auto
  next
    case (Cons d sp')
    with s sp show ?thesis using word_char_not_space by auto
  qed
qed

lemma match_assignment_iff:
  "match_assignment s = Some w \<longleftrightarrow>
     (\<exists>sp post. s = w @ sp @ CHR ''='' # post \<and> w \<noteq> []
        \<and> (\<forall>c \<in> set w. is_word_char c) \<and> (\<forall>c \<in> set sp. isspace c))"
proof
  assume a: "match_assignment s = Some w"
  let ?k = "length (takeWhile is_word_char s)"
  from a have "try_word ?k s = Some w" by (simp add: match_assignment_def)
  from try_word_Some [OF this] obtain i
    where i0: "0 < i" and ik: "i \<le> ?k" and w: "w = take i s"
      and m: "match_spaces_equals (drop i s)"
    by blast
  have "i = ?k"
  proof (rule ccontr)
    assume "i \<noteq> ?k"
    with ik have lt: "i < ?k" by simp
    then have "takeWhile is_word_char s ! i \<in> set (takeWhile is_word_char s)"
      by simp
    then have "is_word_char (takeWhile is_word_char s ! i)"
      by (auto dest: set_takeWhileD)
    then have wc: "is_word_char (s ! i)"
      using takeWhile_nth [OF lt] by simp
    from lt have "i < length s"
      using length_takeWhile_le [of is_word_char s] by simp
    then have "drop i s = s ! i # drop (Suc i) s"
      by (simp add: Cons_nth_drop_Suc)
    with m have "match_spaces_equals (s ! i # drop (Suc i) s)" by simp
    then have "\<not> is_word_char (s ! i)"
      by (rule match_spaces_equals_not_word)
    with wc show False by simp
  qed
  have "take ?k s = takeWhile is_word_char s"
    by (rule takeWhile_eq_take [symmetric])
  moreover have "drop ?k s = dropWhile is_word_char s"
    by (rule dropWhile_eq_drop [symmetric])
  ultimately have wt: "w = takeWhile is_word_char s"
    and d: "drop i s = dropWhile is_word_char s"
    using w \<open>i = ?k\<close> by simp_all
  from m d obtain sp post where dw: "dropWhile is_word_char s = sp @ CHR ''='' # post"
    and sp: "\<forall>c \<in> set sp. isspace c"
    unfolding match_spaces_equals_iff by auto
  have "s = takeWhile is_word_char s @ dropWhile is_word_char s" by simp
  with wt dw have "s = w @ sp @ CHR ''='' # post" by simp
  moreover have "w \<noteq> []" using i0 \<open>i = ?k\<close> wt by auto
  moreover have "\<forall>c \<in> set w. is_word_char c" using wt by (auto dest: set_takeWhileD)
  ultimately show "\<exists>sp post. s = w @ sp @ CHR ''='' # post \<and> w \<noteq> []
        \<and> (\<forall>c \<in> set w. is_word_char c) \<and> (\<forall>c \<in> set sp. isspace c)"
    using sp by blast
next
  assume "\<exists>sp post. s = w @ sp @ CHR ''='' # post \<and> w \<noteq> []
        \<and> (\<forall>c \<in> set w. is_word_char c) \<and> (\<forall>c \<in> set sp. isspace c)"
  then obtain sp post where s: "s = w @ sp @ CHR ''='' # post" and w0: "w \<noteq> []"
    and ww: "\<forall>c \<in> set w. is_word_char c" and sp: "\<forall>c \<in> set sp. isspace c"
    by blast
  have m: "match_spaces_equals (sp @ CHR ''='' # post)"
    unfolding match_spaces_equals_iff using sp by blast
  have nw: "takeWhile is_word_char (sp @ CHR ''='' # post) = []"
  proof (cases sp)
    case Nil
    then show ?thesis using word_char_not_equals by auto
  next
    case (Cons d sp')
    with sp show ?thesis using word_char_not_space by auto
  qed
  have "takeWhile is_word_char s = w @ takeWhile is_word_char (sp @ CHR ''='' # post)"
    unfolding s using ww by (intro takeWhile_append2) auto
  with nw have tw: "takeWhile is_word_char s = w" by simp
  obtain k where k: "length w = Suc k" using w0 by (cases w) auto
  have "drop (Suc k) s = sp @ CHR ''='' # post" using s k by simp
  with m have "try_word (Suc k) s = Some (take (Suc k) s)" by simp
  moreover have "take (Suc k) s = w" using s k by simp
  ultimately show "match_assignment s = Some w"
    by (simp add: match_assignment_def tw k)
qed


lemma search_assignment_Some:
  "search_assignment prev s = Some w \<Longrightarrow>
     \<exists>pre rest. s = pre @ rest
       \<and> word_boundary (if pre = [] then prev else Some (last pre)) (Some (hd rest))
       \<and> match_assignment rest = Some w
       \<and> (\<forall>pre' rest'. s = pre' @ rest' \<and> length pre' < length pre \<longrightarrow>
             \<not> (rest' \<noteq> []
                \<and> word_boundary (if pre' = [] then prev else Some (last pre')) (Some (hd rest'))
                \<and> match_assignment rest' \<noteq> None))"
proof (induction s arbitrary: prev)
  case Nil
  then show ?case by simp
next
  case (Cons c cs)
  show ?case
  proof (cases "word_boundary prev (Some c) \<and> match_assignment (c # cs) \<noteq> None")
    case True
    with Cons.prems have "match_assignment (c # cs) = Some w" by auto
    with True have "c # cs = [] @ (c # cs)
       \<and> word_boundary (if [] = [] then prev else Some (last [])) (Some (hd (c # cs)))
       \<and> match_assignment (c # cs) = Some w
       \<and> (\<forall>pre' rest'. c # cs = pre' @ rest' \<and> length pre' < length ([] :: string) \<longrightarrow>
             \<not> (rest' \<noteq> []
                \<and> word_boundary (if pre' = [] then prev else Some (last pre')) (Some (hd rest'))
                \<and> match_assignment rest' \<noteq> None))"
      by simp
    then show ?thesis by blast
  next
    case False
    with Cons.prems have "search_assignment (Some c) cs = Some w"
      by (auto split: if_splits option.splits)
    from Cons.IH [OF this] obtain pre rest where cs: "cs = pre @ rest"
      and wb: "word_boundary (if pre = [] then Some c else Some (last pre)) (Some (hd rest))"
      and ma: "match_assignment rest = Some w"
      and lm: "\<forall>pre' rest'. cs = pre' @ rest' \<and> length pre' < length pre \<longrightarrow>
             \<not> (rest' \<noteq> []
                \<and> word_boundary (if pre' = [] then Some c else Some (last pre')) (Some (hd rest'))
                \<and> match_assignment rest' \<noteq> None)"
      by blast
    have 1: "c # cs = (c # pre) @ rest" using cs by simp
    have 2: "word_boundary (if c # pre = [] then prev else Some (last (c # pre))) (Some (hd rest))"
      using wb by (cases "pre = []") simp_all
    have 3: "\<forall>pre' rest'. c # cs = pre' @ rest' \<and> length pre' < length (c # pre) \<longrightarrow>
             \<not> (rest' \<noteq> []
                \<and> word_boundary (if pre' = [] then prev else Some (last pre')) (Some (hd rest'))
                \<and> match_assignment rest' \<noteq> None)"
    proof (intro allI impI)
      fix pre' rest'
      assume h: "c # cs = pre' @ rest' \<and> length pre' < length (c # pre)"
      show "\<not> (rest' \<noteq> []
                \<and> word_boundary (if pre' = [] then prev else Some (last pre')) (Some (hd rest'))
                \<and> match_assignment rest' \<noteq> None)"
      proof (cases pre')
        case Nil
        with h have "rest' = c # cs" by simp
        with Nil False show ?thesis by auto
      next
        case (Cons d pre'')
        with h have c1: "cs = pre'' @ rest' \<and> length pre'' < length pre" and "d = c" by auto
        have eq: "(if pre' = [] then prev else Some (last pre'))
                    = (if pre'' = [] then Some c else Some (last pre''))"
          using Cons \<open>d = c\<close> by simp
        from lm c1 have "\<not> (rest' \<noteq> []
                \<and> word_boundary (if pre'' = [] then Some c else Some (last pre''))
                      (Some (hd rest'))
                \<and> match_assignment rest' \<noteq> None)"
          by blast
        then show ?thesis unfolding eq .
      qed
    qed
    from 1 2 ma 3 show ?thesis by blast
  qed
qed

lemma search_assignment_None:
  "search_assignment prev s = None \<Longrightarrow> s = pre @ rest \<Longrightarrow> rest \<noteq> [] \<Longrightarrow>
     \<not> (word_boundary (if pre = [] then prev else Some (last pre)) (Some (hd rest))
        \<and> match_assignment rest \<noteq> None)"
proof (induction s arbitrary: prev pre)
  case Nil
  then show ?case by simp
next
  case (Cons c cs)
  show ?case
  proof (cases pre)
    case Nil
    with Cons.prems have "rest = c # cs" by simp
    with Cons.prems(1) Nil show ?thesis
      by (auto split: if_splits option.splits)
  next
    case (Cons d pre')
    with Cons.prems have cs: "cs = pre' @ rest" and "d = c" by auto
    from Cons.prems(1) have "search_assignment (Some c) cs = None"
      by (auto split: if_splits option.splits)
    from Cons.IH [OF this cs Cons.prems(3)] Cons \<open>d = c\<close> show ?thesis by auto
  qed
qed

text \<open>
  \<open>assignment_at line pre word\<close>: in \<open>line\<close>, after the prefix \<open>pre\<close>, stands the
  identifier \<open>word\<close> (word characters, not preceded by one), then whitespace or nothing,
  then \<open>=\<close>.
\<close>

abbreviation assignment_at :: "string \<Rightarrow> string \<Rightarrow> string \<Rightarrow> bool" where
  "assignment_at line pre word \<equiv>
     (\<exists>sp post. line = pre @ word @ sp @ CHR ''='' # post \<and> word \<noteq> []
        \<and> (\<forall>c \<in> set word. is_word_char c) \<and> (\<forall>c \<in> set sp. isspace c)
        \<and> (pre = [] \<or> \<not> is_word_char (last pre)))"

lemma match_at_iff:
  "(rest \<noteq> [] \<and> word_boundary (if pre = [] then None else Some (last pre)) (Some (hd rest))
      \<and> match_assignment rest = Some w)
   \<longleftrightarrow> assignment_at (pre @ rest) pre w"
proof
  assume a: "rest \<noteq> [] \<and> word_boundary (if pre = [] then None else Some (last pre)) (Some (hd rest))
      \<and> match_assignment rest = Some w"
  then obtain sp post where r: "rest = w @ sp @ CHR ''='' # post" and w0: "w \<noteq> []"
    and ww: "\<forall>c \<in> set w. is_word_char c" and sp: "\<forall>c \<in> set sp. isspace c"
    unfolding match_assignment_iff by blast
  from r w0 ww have "is_word_char (hd rest)" by (cases w) auto
  with a have "pre = [] \<or> \<not> is_word_char (last pre)"
    by (auto simp: word_boundary_def split: if_splits)
  with r w0 ww sp show "assignment_at (pre @ rest) pre w" by blast
next
  assume "assignment_at (pre @ rest) pre w"
  then obtain sp post where r: "rest = w @ sp @ CHR ''='' # post" and w0: "w \<noteq> []"
    and ww: "\<forall>c \<in> set w. is_word_char c" and sp: "\<forall>c \<in> set sp. isspace c"
    and b: "pre = [] \<or> \<not> is_word_char (last pre)"
    by auto
  from r w0 ww have h: "is_word_char (hd rest)" by (cases w) auto
  have "match_assignment rest = Some w"
    unfolding match_assignment_iff using r w0 ww sp by blast
  moreover have "word_boundary (if pre = [] then None else Some (last pre)) (Some (hd rest))"
    using b h by (auto simp: word_boundary_def)
  moreover have "rest \<noteq> []" using r w0 by simp
  ultimately show "rest \<noteq> [] \<and> word_boundary (if pre = [] then None else Some (last pre)) (Some (hd rest))
      \<and> match_assignment rest = Some w"
    by simp
qed

lemma re_search_assignment_Some:
  assumes "re_search_assignment line = Some w"
  shows "\<exists>pre. assignment_at line pre w
           \<and> (\<forall>pre' w'. assignment_at line pre' w' \<longrightarrow> length pre \<le> length pre')"
proof -
  from assms have "search_assignment None line = Some w"
    by (simp add: re_search_assignment_def)
  from search_assignment_Some [OF this] obtain pre rest where l: "line = pre @ rest"
    and wb: "word_boundary (if pre = [] then None else Some (last pre)) (Some (hd rest))"
    and ma: "match_assignment rest = Some w"
    and lm: "\<forall>pre' rest'. line = pre' @ rest' \<and> length pre' < length pre \<longrightarrow>
             \<not> (rest' \<noteq> []
                \<and> word_boundary (if pre' = [] then None else Some (last pre')) (Some (hd rest'))
                \<and> match_assignment rest' \<noteq> None)"
    by blast
  from ma have "rest \<noteq> []" unfolding match_assignment_iff by auto
  with wb ma have at: "assignment_at line pre w"
    unfolding l using match_at_iff [of rest pre w] by simp
  have "\<forall>pre' w'. assignment_at line pre' w' \<longrightarrow> length pre \<le> length pre'"
  proof (intro allI impI, rule ccontr)
    fix pre' w'
    assume a: "assignment_at line pre' w'" and n: "\<not> length pre \<le> length pre'"
    from a obtain rest' where l': "line = pre' @ rest'" by auto
    with a have m: "rest' \<noteq> []
        \<and> word_boundary (if pre' = [] then None else Some (last pre')) (Some (hd rest'))
        \<and> match_assignment rest' = Some w'"
      using match_at_iff [of rest' pre' w'] by simp
    have "length pre' < length pre" using n by simp
    with lm l' have "\<not> (rest' \<noteq> []
        \<and> word_boundary (if pre' = [] then None else Some (last pre')) (Some (hd rest'))
        \<and> match_assignment rest' \<noteq> None)"
      by blast
    with m show False by simp
  qed
  with at show ?thesis by blast
qed

lemma re_search_assignment_None_iff:
  "re_search_assignment line = None \<longleftrightarrow> (\<forall>pre w. \<not> assignment_at line pre w)"
proof
  assume n: "re_search_assignment line = None"
  show "\<forall>pre w. \<not> assignment_at line pre w"
  proof (intro allI notI)
    fix pre w
    assume a: "assignment_at line pre w"
    then obtain rest where l: "line = pre @ rest" by auto
    with a have m: "rest \<noteq> []
        \<and> word_boundary (if pre = [] then None else Some (last pre)) (Some (hd rest))
        \<and> match_assignment rest = Some w"
      using match_at_iff [of rest pre w] by simp
    from n have "search_assignment None line = None" by (simp add: re_search_assignment_def)
    from search_assignment_None [OF this l] m show False by auto
  qed
next
  assume a: "\<forall>pre w. \<not> assignment_at line pre w"
  show "re_search_assignment line = None"
  proof (rule ccontr)
    assume "re_search_assignment line \<noteq> None"
    then obtain w where "re_search_assignment line = Some w" by auto
    from re_search_assignment_Some [OF this] a show False by blast
  qed
qed


lemma upper_char_cases:
  "upper_char c \<noteq> [] \<and> (hd (upper_char c) = of_char c \<longrightarrow> upper_char c = [of_char c])"
  by (auto simp: upper_char_def Let_def)

lemma str_upper_eq_iff:
  "str_upper w = code_points w \<longleftrightarrow> (\<forall>c \<in> set w. upper_char c = [of_char c])"
proof (induction w)
  case Nil
  then show ?case by (simp add: str_upper_def code_points_def)
next
  case (Cons c w)
  have s: "str_upper (c # w) = upper_char c @ str_upper w"
    and p: "code_points (c # w) = of_char c # code_points w"
    by (simp_all add: str_upper_def code_points_def)
  show ?case
  proof
    assume e: "str_upper (c # w) = code_points (c # w)"
    then have "hd (upper_char c @ str_upper w) = of_char c" using s p by simp
    then have "hd (upper_char c) = of_char c" using upper_char_cases [of c] by simp
    then have u: "upper_char c = [of_char c]" using upper_char_cases [of c] by simp
    with e s p have "str_upper w = code_points w" by simp
    with u Cons.IH show "\<forall>c \<in> set (c # w). upper_char c = [of_char c]" by simp
  next
    assume "\<forall>c \<in> set (c # w). upper_char c = [of_char c]"
    then show "str_upper (c # w) = code_points (c # w)"
      using Cons.IH s p by simp
  qed
qed

lemma capital_letter_upper:
  "65 \<le> (of_char c :: nat) \<and> (of_char c :: nat) \<le> 90 \<Longrightarrow> upper_char c = [of_char c]"
  by (simp add: upper_char_def Let_def)

lemma words_loop_single:
  "words_loop i [word] acc =
     (if str_upper word \<noteq> code_points word \<and> MAX_VARIABLE_NAME_LENGTH < length word
      then acc @ [Suc i] else acc)"
  by simp

lemma variable_length_loop_eq:
  "variable_length_loop i ls acc =
     acc @ map (\<lambda>(k, l). Suc k)
             (filter (\<lambda>(k, l). case re_search_assignment l of
                                 None \<Rightarrow> False
                               | Some word \<Rightarrow> str_upper word \<noteq> code_points word
                                             \<and> MAX_VARIABLE_NAME_LENGTH < length word)
                (enumerate i ls))"
  by (induction ls arbitrary: i acc) (simp_all add: words_loop_single split: option.splits)

lemma check_variable_length_member:
  "n \<in> set (check_implementation_variable_length ls) \<longleftrightarrow>
     (\<exists>k < length ls. n = Suc k
        \<and> (case re_search_assignment (ls ! k) of
              None \<Rightarrow> False
            | Some word \<Rightarrow> str_upper word \<noteq> code_points word
                          \<and> MAX_VARIABLE_NAME_LENGTH < length word))"
  by (auto simp: check_implementation_variable_length_def variable_length_loop_eq
      in_set_enumerate_eq)

lemma check_variable_length_distinct:
  "distinct (check_implementation_variable_length ls)"
proof -
  have e: "map (\<lambda>(k, l). Suc k) xs = map Suc (map fst xs)" for xs :: "(nat \<times> string) list"
    by (induction xs) auto
  have s: "distinct (map Suc ys)" if "distinct ys" for ys :: "nat list"
    using that by (simp add: distinct_map)
  have "distinct (map fst (filter P (enumerate 0 ls)))" for P :: "nat \<times> string \<Rightarrow> bool"
    by (rule distinct_map_filter) simp
  then have "distinct (map Suc (map fst (filter P (enumerate 0 ls))))"
    for P :: "nat \<times> string \<Rightarrow> bool"
    by (rule s)
  then show ?thesis
    unfolding check_implementation_variable_length_def variable_length_loop_eq e by simp
qed

text \<open>
  Claim C8. For line \<open>k\<close> of the input: when the pattern does not match it, its number is
  not in the result; when it matches with the identifier \<open>word\<close>, its number \<open>k + 1\<close> is
  in the result exactly when \<open>word.upper()\<close> differs from \<open>word\<close> and \<open>word\<close> is longer
  than 25 characters. \<open>word.upper()\<close> equals \<open>word\<close> exactly when upper-casing changes
  none of its characters, so an identifier of capital letters only is never flagged,
  whatever its length. No line number is listed twice. The identifier that counts is the
  leftmost one of the line that is followed, after optional whitespace, by \<open>=\<close>; the
  pattern fails to match exactly when the line has no such identifier.
\<close>

theorem long_variable_names_flagged:
  assumes "k < length ls"
  shows "(re_search_assignment (ls ! k) = None
            \<longrightarrow> Suc k \<notin> set (check_implementation_variable_length ls))
       \<and> (re_search_assignment (ls ! k) = Some word
            \<longrightarrow> (Suc k \<in> set (check_implementation_variable_length ls))
                  = (str_upper word \<noteq> code_points word \<and> 25 < length word))
       \<and> ((str_upper word = code_points word) = (\<forall>c \<in> set word. upper_char c = [of_char c]))
       \<and> (re_search_assignment (ls ! k) = Some word
            \<and> (\<forall>c \<in> set word. 65 \<le> (of_char c :: nat) \<and> (of_char c :: nat) \<le> 90)
            \<longrightarrow> Suc k \<notin> set (check_implementation_variable_length ls))
       \<and> distinct (check_implementation_variable_length ls)
       \<and> (re_search_assignment (ls ! k) = Some word
            \<longrightarrow> (\<exists>pre. assignment_at (ls ! k) pre word
                   \<and> (\<forall>pre' w'. assignment_at (ls ! k) pre' w' \<longrightarrow> length pre \<le> length pre')))
       \<and> ((re_search_assignment (ls ! k) = None) = (\<forall>pre w. \<not> assignment_at (ls ! k) pre w))"
proof -
  have a: "re_search_assignment (ls ! k) = None
            \<longrightarrow> Suc k \<notin> set (check_implementation_variable_length ls)"
    by (auto simp: check_variable_length_member)
  have b: "re_search_assignment (ls ! k) = Some word
            \<longrightarrow> (Suc k \<in> set (check_implementation_variable_length ls))
                  = (str_upper word \<noteq> code_points word \<and> 25 < length word)"
    using assms by (auto simp: check_variable_length_member MAX_VARIABLE_NAME_LENGTH_def)
  have c: "re_search_assignment (ls ! k) = Some word
            \<and> (\<forall>c \<in> set word. 65 \<le> (of_char c :: nat) \<and> (of_char c :: nat) \<le> 90)
            \<longrightarrow> Suc k \<notin> set (check_implementation_variable_length ls)"
  proof
    assume h: "re_search_assignment (ls ! k) = Some word
            \<and> (\<forall>c \<in> set word. 65 \<le> (of_char c :: nat) \<and> (of_char c :: nat) \<le> 90)"
    then have "\<forall>c \<in> set word. upper_char c = [of_char c]"
      using capital_letter_upper by blast
    then have "str_upper word = code_points word" by (simp add: str_upper_eq_iff)
    with h b show "Suc k \<notin> set (check_implementation_variable_length ls)" by simp
  qed
  have d: "re_search_assignment (ls ! k) = Some word
            \<longrightarrow> (\<exists>pre. assignment_at (ls ! k) pre word
                   \<and> (\<forall>pre' w'. assignment_at (ls ! k) pre' w' \<longrightarrow> length pre \<le> length pre'))"
    using re_search_assignment_Some by blast
  from a b c d str_upper_eq_iff [of word] check_variable_length_distinct [of ls]
    re_search_assignment_None_iff [of "ls ! k"]
  show ?thesis by blast
qed


theorem long_variable_names_flagged_witness:
  "Suc 0 \<notin> set (check_implementation_variable_length
      [''x = 1'', ''a_very_long_variable_name_indeed = 2'',
       ''A_VERY_LONG_VARIABLE_NAME_INDEED = 2'',
       ''f(short=1, b_very_long_variable_name_indeed=2)'', ''return value'',
       ''ABCDEFGHIJKLMNOPQRSTUVWXYZABCD = 3''])
   \<and> Suc 1 \<in> set (check_implementation_variable_length
      [''x = 1'', ''a_very_long_variable_name_indeed = 2'',
       ''A_VERY_LONG_VARIABLE_NAME_INDEED = 2'',
       ''f(short=1, b_very_long_variable_name_indeed=2)'', ''return value'',
       ''ABCDEFGHIJKLMNOPQRSTUVWXYZABCD = 3''])
   \<and> Suc 2 \<notin> set (check_implementation_variable_length
      [''x = 1'', ''a_very_long_variable_name_indeed = 2'',
       ''A_VERY_LONG_VARIABLE_NAME_INDEED = 2'',
       ''f(short=1, b_very_long_variable_name_indeed=2)'', ''return value'',
       ''ABCDEFGHIJKLMNOPQRSTUVWXYZABCD = 3''])
   \<and> Suc 3 \<notin> set (check_implementation_variable_length
      [''x = 1'', ''a_very_long_variable_name_indeed = 2'',
       ''A_VERY_LONG_VARIABLE_NAME_INDEED = 2'',
       ''f(short=1, b_very_long_variable_name_indeed=2)'', ''return value'',
       ''ABCDEFGHIJKLMNOPQRSTUVWXYZABCD = 3''])
   \<and> Suc 4 \<notin> set (check_implementation_variable_length
      [''x = 1'', ''a_very_long_variable_name_indeed = 2'',
       ''A_VERY_LONG_VARIABLE_NAME_INDEED = 2'',
       ''f(short=1, b_very_long_variable_name_indeed=2)'', ''return value'',
       ''ABCDEFGHIJKLMNOPQRSTUVWXYZABCD = 3''])
   \<and> Suc 5 \<notin> set (check_implementation_variable_length
      [''x = 1'', ''a_very_long_variable_name_indeed = 2'',
       ''A_VERY_LONG_VARIABLE_NAME_INDEED = 2'',
       ''f(short=1, b_very_long_variable_name_indeed=2)'', ''return value'',
       ''ABCDEFGHIJKLMNOPQRSTUVWXYZABCD = 3''])
   \<and> length ''ABCDEFGHIJKLMNOPQRSTUVWXYZABCD'' = 30
   \<and> (\<exists>pre. assignment_at ''f(short=1, b_very_long_variable_name_indeed=2)'' pre ''short'')"
proof -
  let ?ls = "[''x = 1'', ''a_very_long_variable_name_indeed = 2'',
       ''A_VERY_LONG_VARIABLE_NAME_INDEED = 2'',
       ''f(short=1, b_very_long_variable_name_indeed=2)'', ''return value'',
       ''ABCDEFGHIJKLMNOPQRSTUVWXYZABCD = 3'']"
  have r0: "re_search_assignment (?ls ! 0) = Some ''x''" by code_simp
  have r1: "re_search_assignment (?ls ! 1) = Some ''a_very_long_variable_name_indeed''"
    by code_simp
  have r2: "re_search_assignment (?ls ! 2) = Some ''A_VERY_LONG_VARIABLE_NAME_INDEED''"
    by code_simp
  have r3: "re_search_assignment (?ls ! 3) = Some ''short''" by code_simp
  have r4: "re_search_assignment (?ls ! 4) = None" by code_simp
  have r5: "re_search_assignment (?ls ! 5) = Some ''ABCDEFGHIJKLMNOPQRSTUVWXYZABCD''"
    by code_simp
  have u1: "str_upper ''a_very_long_variable_name_indeed''
              \<noteq> code_points ''a_very_long_variable_name_indeed''"
    by code_simp
  have u2: "str_upper ''A_VERY_LONG_VARIABLE_NAME_INDEED''
              = code_points ''A_VERY_LONG_VARIABLE_NAME_INDEED''"
    by code_simp
  have u5: "\<forall>c \<in> set ''ABCDEFGHIJKLMNOPQRSTUVWXYZABCD''.
              65 \<le> (of_char c :: nat) \<and> (of_char c :: nat) \<le> 90"
    by code_simp
  have l: "0 < length ?ls" "1 < length ?ls" "2 < length ?ls" "3 < length ?ls" "4 < length ?ls"
    "5 < length ?ls"
    by simp_all
  from long_variable_names_flagged [OF l(1), of "''x''"] r0
  have 0: "Suc 0 \<notin> set (check_implementation_variable_length ?ls)" by simp
  from long_variable_names_flagged [OF l(2), of "''a_very_long_variable_name_indeed''"] r1 u1
  have 1: "Suc 1 \<in> set (check_implementation_variable_length ?ls)" by simp
  from long_variable_names_flagged [OF l(3), of "''A_VERY_LONG_VARIABLE_NAME_INDEED''"] r2 u2
  have 2: "Suc 2 \<notin> set (check_implementation_variable_length ?ls)" by simp
  from long_variable_names_flagged [OF l(4), of "''short''"] r3
  have 3: "Suc 3 \<notin> set (check_implementation_variable_length ?ls)" by simp
  from long_variable_names_flagged [OF l(4), of "''short''"] r3
  have a: "\<exists>pre. assignment_at (?ls ! 3) pre ''short''" by blast
  from long_variable_names_flagged [OF l(5), of "[]"] r4
  have 4: "Suc 4 \<notin> set (check_implementation_variable_length ?ls)" by simp
  from long_variable_names_flagged [OF l(6), of "''ABCDEFGHIJKLMNOPQRSTUVWXYZABCD''"] r5 u5
  have 5: "Suc 5 \<notin> set (check_implementation_variable_length ?ls)" by blast
  from a have a': "\<exists>pre. assignment_at ''f(short=1, b_very_long_variable_name_indeed=2)'' pre ''short''"
    by simp
  from 0 1 2 3 4 5 a' show ?thesis by simp
qed


section \<open>Properties of the run over one file\<close>

lemma readlines_from_Nil_iff: "readlines_from cur s = [] \<longleftrightarrow> cur = [] \<and> s = []"
  by (induction s arbitrary: cur) auto

text \<open>A file has no lines exactly when it has no text.\<close>

lemma readlines_Nil_iff: "readlines s = [] \<longleftrightarrow> s = []"
  by (simp add: readlines_def readlines_from_Nil_iff)

text \<open>
  Claim C9. For a file with zero lines the run returns right after the reset of the two
  dictionaries: no check is made (the result does not depend on what parsing the file
  would give), no file is written and the output directory is not created.
\<close>

theorem empty_file_is_skipped:
  assumes "length (readlines (content file)) = 0"
  shows "parse_python_file st file = Inr (set_data_for_parsing st)
       \<and> output_files (set_data_for_parsing st) = output_files st
       \<and> output_directory_exists (set_data_for_parsing st) = output_directory_exists st
       \<and> template_file (set_data_for_parsing st) = template_file st
       \<and> directory (set_data_for_parsing st) = directory st"
  using assms by (simp add: parse_python_file_def set_data_for_parsing_def)

theorem empty_file_is_skipped_witness:
  "length (readlines (content \<lparr> file_path = ''pkg/__init__.py'', content = [],
                               parsed = Inr \<lparr> body = [], walk = [] \<rparr> \<rparr>)) = 0
   \<and> parse_python_file
        \<lparr> variables = initial_template_variables \<lparr> SCRIPT_NAME := ''a.py'' \<rparr>,
          information = initial_file_information \<lparr> INVALID_IMPORTS := Some [''os''] \<rparr>,
          directory = ''/tool'', template_file = Some ''{{SCRIPT_NAME}}'',
          output_directory_exists = False,
          output_files = Map.empty \<rparr>
        \<lparr> file_path = ''pkg/__init__.py'', content = [],
          parsed = Inr \<lparr> body = [], walk = [] \<rparr> \<rparr>
      = Inr \<lparr> variables = initial_template_variables,
              information = initial_file_information,
              directory = ''/tool'', template_file = Some ''{{SCRIPT_NAME}}'',
              output_directory_exists = False,
              output_files = Map.empty \<rparr>"
  using empty_file_is_skipped
    [of "\<lparr> file_path = ''pkg/__init__.py'', content = [],
           parsed = Inr \<lparr> body = [], walk = [] \<rparr> \<rparr>"
        "\<lparr> variables = initial_template_variables \<lparr> SCRIPT_NAME := ''a.py'' \<rparr>,
          information = initial_file_information \<lparr> INVALID_IMPORTS := Some [''os''] \<rparr>,
          directory = ''/tool'', template_file = Some ''{{SCRIPT_NAME}}'',
          output_directory_exists = False,
          output_files = Map.empty \<rparr>"]
  by (simp add: readlines_def set_data_for_parsing_def)

text \<open>
  Claim C10. When the module body of a file is empty and the first line of the file is
  not a comment, the file-header check does not return a boolean: \<open>tree.body[0]\<close>
  raises \<open>IndexError\<close>. A file of one blank line is such a file.
\<close>

theorem file_header_check_raises_on_empty_body:
  assumes "parsed file = Inr tree"
    and "body tree = []"
    and "implementation \<noteq> []"
    and "\<not> startswith (strip (hd implementation)) ''#''"
  shows "check_for_file_header file implementation = Inl IndexError"
  using assms
  by (cases implementation)
     (simp_all add: check_for_file_header_def has_file_docstring_def py_index_def)

theorem file_header_check_raises_on_empty_body_witness:
  "readlines [newline] \<noteq> []
   \<and> \<not> startswith (strip (hd (readlines [newline]))) ''#''
   \<and> check_for_file_header
        \<lparr> file_path = ''blank.py'', content = [newline],
          parsed = Inr \<lparr> body = [],
                         walk = [\<lparr> kind = OtherNode, name = [], lineno = 0,
                                   end_lineno = None, docstring = None \<rparr>] \<rparr> \<rparr>
        (readlines [newline]) = Inl IndexError"
  using file_header_check_raises_on_empty_body
    [of "\<lparr> file_path = ''blank.py'', content = [newline],
           parsed = Inr \<lparr> body = [],
                          walk = [\<lparr> kind = OtherNode, name = [], lineno = 0,
                                    end_lineno = None, docstring = None \<rparr>] \<rparr> \<rparr>"
        "\<lparr> body = [], walk = [\<lparr> kind = OtherNode, name = [], lineno = 0,
                                  end_lineno = None, docstring = None \<rparr>] \<rparr>"
        "readlines [newline]"]
  by (simp add: readlines_def startswith_def strip_def isspace_def)

text \<open>The exception ends the run over the file: nothing is written for it.\<close>

lemma blank_file_aborts_the_run:
  "parse_python_file st
     \<lparr> file_path = ''blank.py'', content = [newline],
       parsed = Inr \<lparr> body = [], walk = ns \<rparr> \<rparr> = Inl IndexError"
  by (simp add: parse_python_file_def readlines_def check_for_file_header_def
      has_file_docstring_def py_index_def startswith_def strip_def isspace_def)

section \<open>Properties of the report\<close>









section \<open>Properties of the checks on functions\<close>

subsection \<open>The header-comment detector on the first line\<close>

text \<open>Once a comment line was seen, the loop can only answer \<open>True\<close>.\<close>

lemma comment_header_loop_True:
  "comment_header_loop implementation True i l = Inr b \<Longrightarrow> b"
proof (induction implementation True i l rule: comment_header_loop.induct)
  case (1 implementation i l)
  show ?case
  proof (cases "startswith (strip l) ''#''")
    case True
    with "1.prems" obtain next_line
      where n: "py_index implementation (i - 1) = Inr next_line"
        and r: "comment_header_loop implementation True (i - 1) next_line = Inr b"
      by (subst (asm) comment_header_loop.simps) (auto split: sum.splits)
    from "1.hyps" [OF True n r] show ?thesis .
  next
    case False
    with "1.prems" show ?thesis
      by (subst (asm) comment_header_loop.simps) simp
  qed
qed

lemma py_index_last:
  "implementation \<noteq> [] \<Longrightarrow> py_index implementation (- 1) = Inr (last implementation)"
  by (cases implementation rule: rev_cases) (auto simp: py_index_def nth_append)

text \<open>
  The detector at \<open>start_line = 0\<close>: it raises on an empty list of lines, answers
  \<open>False\<close> when the last line of the file is not a comment, and does not answer
  \<open>False\<close> when it is one.
\<close>

lemma first_line_definition:
  "check_module_using_comment_header [] 0 = Inl IndexError"
  "implementation \<noteq> [] \<Longrightarrow> \<not> startswith (strip (last implementation)) ''#''
     \<Longrightarrow> check_module_using_comment_header implementation 0 = Inr False"
  "implementation \<noteq> [] \<Longrightarrow> startswith (strip (last implementation)) ''#''
     \<Longrightarrow> check_module_using_comment_header implementation 0 \<noteq> Inr False"
proof -
  show "check_module_using_comment_header [] 0 = Inl IndexError"
    by (simp add: check_module_using_comment_header_def py_index_def)
  show "check_module_using_comment_header implementation 0 = Inr False"
    if "implementation \<noteq> []" "\<not> startswith (strip (last implementation)) ''#''"
    using that
    by (simp add: check_module_using_comment_header_def py_index_last
        comment_header_loop.simps)
  show "check_module_using_comment_header implementation 0 \<noteq> Inr False"
    if a: "implementation \<noteq> []" "startswith (strip (last implementation)) ''#''"
  proof
    assume "check_module_using_comment_header implementation 0 = Inr False"
    then have "comment_header_loop implementation False (- 1) (last implementation) = Inr False"
      using a by (simp add: check_module_using_comment_header_def py_index_last)
    then obtain next_line
      where "comment_header_loop implementation True (- 2) next_line = Inr False"
      using a(2) by (subst (asm) comment_header_loop.simps) (auto split: sum.splits)
    from comment_header_loop_True [OF this] show False .
  qed
qed

text \<open>
  A function on the first line of its file: \<open>implementation[start_line - 1]\<close> is
  \<open>implementation[-1]\<close>, the last line of the file, and the walk upwards goes on from
  there. In \<open>example_first_line\<close> the last line is a comment, the detector answers
  \<open>True\<close>, and the function \<open>f\<close>, which has neither docstring nor comment above it, is
  not reported (claim C1 says the answer is \<open>False\<close>).
\<close>

theorem comment_header_wraps_to_end_of_file:
  "check_module_using_comment_header (splitlines (content example_first_line)) 0 = Inr True
   \<and> check_functions_headers example_first_line = Inr []"
  by code_simp




























end
